theory Spec2Isabelle
  imports Main "HOL-Library.Sublist" "HOL-Library.List_Lexorder" "HOL-Library.Char_ord"
begin

section \<open>The world the server runs in\<close>

text \<open>
  The program (\<^verbatim>\<open>app.py\<close>) is a Flask application. Its handlers read the file
  system through \<^verbatim>\<open>os.path\<close>, ask \<^verbatim>\<open>mimetypes\<close> for a content type, hash a path
  with \<^verbatim>\<open>hashlib.md5\<close> and start \<^verbatim>\<open>ffmpeg\<close> through \<^verbatim>\<open>subprocess.run\<close>.
  The handlers are modelled as functions on an explicit world. The content-type table,
  the digest, the directory listing and the external tool are parameters, so that every
  theorem holds for whatever they compute; the path functions of \<^verbatim>\<open>posixpath\<close> and
  Flask's \<^verbatim>\<open>send_from_directory\<close> are written out as the libraries define them.

  A path is the string the program passes to the operating system. The file system is a
  map from such strings to the kind of node found there.
\<close>

datatype node = File | Dir | Special

type_synonym filesystem = "string \<rightharpoonup> node"

text \<open>\<^verbatim>\<open>os.path.exists\<close>, \<^verbatim>\<open>os.path.isfile\<close>, \<^verbatim>\<open>os.path.isdir\<close>.\<close>

definition exists_path :: "filesystem \<Rightarrow> string \<Rightarrow> bool" where
  "exists_path d p = (d p \<noteq> None)"

definition isfile :: "filesystem \<Rightarrow> string \<Rightarrow> bool" where
  "isfile d p = (d p = Some File)"

definition isdir :: "filesystem \<Rightarrow> string \<Rightarrow> bool" where
  "isdir d p = (d p = Some Dir)"

text \<open>
  What \<^verbatim>\<open>subprocess.run(cmd, ..., check=True)\<close> can do: the process cannot be
  started (an \<^verbatim>\<open>OSError\<close>), or it runs, leaves the file system in some state and ends
  with a return code (negative when a signal killed it). With \<^verbatim>\<open>check=True\<close> every
  return code other than 0 raises \<^verbatim>\<open>CalledProcessError\<close>.
\<close>

datatype proc_outcome = LaunchFailed | Exited int filesystem

record env =
  ROOT_DIR :: string
  guess_type :: "string \<Rightarrow> string option"
  md5_hexdigest :: "string \<Rightarrow> string"
  run_process :: "string list \<Rightarrow> filesystem \<Rightarrow> proc_outcome"
  listdir :: "filesystem \<Rightarrow> string \<Rightarrow> string list option"

text \<open>
  The state: the file system, and the list of the commands handed to
  \<^verbatim>\<open>subprocess.run\<close> so far, oldest first (a ghost field that counts the
  invocations of the external process).
\<close>

record world =
  disk :: filesystem
  procs :: "string list list"

section \<open>Values of the program\<close>

text \<open>\<^verbatim>\<open>abort(code)\<close> and \<^verbatim>\<open>abort(code, description)\<close>.\<close>

datatype http_error = Abort nat "string option"

fun status_code :: "http_error \<Rightarrow> nat" where
  "status_code (Abort c _) = c"

text \<open>
  The argument of \<^verbatim>\<open>jsonify\<close> is a dict literal whose values are strings or
  \<^verbatim>\<open>None\<close>: an association list in the order of the literal.
\<close>

datatype json = JString string | JNull

type_synonym json_object = "(string \<times> json) list"

text \<open>
  \<^verbatim>\<open>os.path.join(a, b)\<close> of \<^verbatim>\<open>posixpath\<close>: an absolute second component
  replaces the first; otherwise the two are put together with one separator, which is
  left out when the first is empty or ends with one.
\<close>

definition path_join :: "string \<Rightarrow> string \<Rightarrow> string" where
  "path_join a b =
     (if prefix ''/'' b then b
      else if a = [] \<or> suffix ''/'' a then a @ b
      else a @ ''/'' @ b)"

definition THUMBNAIL_DIR :: string where
  "THUMBNAIL_DIR = ''/tmp/web_file_viewer''"

section \<open>The program\<close>

text \<open>
  \<^verbatim>\<open>
  def hash_path(path):
      return hashlib.md5(path.encode("utf-8")).hexdigest()
  \<close>
  Strings are byte strings here, so the encoding is the identity.
\<close>

definition hash_path :: "env \<Rightarrow> string \<Rightarrow> string" where
  "hash_path E path = md5_hexdigest E path"

text \<open>
  \<^verbatim>\<open>
  def generate_video_thumbnail(video_path, thumb_path):
      if os.path.exists(thumb_path):
          return True
      cmd = ["ffmpeg", "-y", "-i", video_path, "-ss", "00:00:02", "-vframes", "1",
             "-vf", "scale=320:-1", thumb_path]
      try:
          subprocess.run(cmd, stdout=subprocess.PIPE, stderr=subprocess.PIPE, check=True)
          return True
      except Exception as e:
          print("FFmpeg thumbnail error:", e)
          return False
  \<close>
  The message printed on failure is not part of the model.
\<close>

definition ffmpeg_cmd :: "string \<Rightarrow> string \<Rightarrow> string list" where
  "ffmpeg_cmd video_path thumb_path =
     [''ffmpeg'', ''-y'', ''-i'', video_path, ''-ss'', ''00:00:02'', ''-vframes'', ''1'',
      ''-vf'', ''scale=320:-1'', thumb_path]"

definition generate_video_thumbnail :: "env \<Rightarrow> string \<Rightarrow> string \<Rightarrow> world \<Rightarrow> bool \<times> world" where
  "generate_video_thumbnail E video_path thumb_path w =
     (if exists_path (disk w) thumb_path then (True, w)
      else
        let cmd = ffmpeg_cmd video_path thumb_path;
            w1 = w\<lparr>procs := procs w @ [cmd]\<rparr>
        in case run_process E cmd (disk w) of
             LaunchFailed \<Rightarrow> (False, w1)
           | Exited rc d \<Rightarrow>
               if rc = 0 then (True, w1\<lparr>disk := d\<rparr>) else (False, w1\<lparr>disk := d\<rparr>))"

text \<open>
  \<^verbatim>\<open>
  @app.route("/preview")
  def preview():
      file_path = request.args.get("file")
      if not file_path:
          abort(400, "Missing \"file\" parameter")
      abs_path = os.path.join(ROOT_DIR, file_path)
      if not os.path.isfile(abs_path):
          abort(404)
      mime, _ = mimetypes.guess_type(abs_path)
      if not mime:
          abort(415)
      if mime.startswith("image/"):
          return jsonify({"type": "image", "url": '/' + file_path,
                          "thumb_url": '/' + file_path})
      elif mime.startswith("video/"):
          hashed = hash_path(file_path)
          thumb_filename = hashed + ".jpg"
          thumb_path = os.path.join(THUMBNAIL_DIR, thumb_filename)
          success = generate_video_thumbnail(abs_path, thumb_path)
          if not success:
              abort(500, "Failed to generate thumbnail")
          return jsonify({"type": "video", "url": '/' + file_path,
                          "thumb_url": "/thumbnail/" + thumb_filename})
      else:
          return jsonify({"type": "file", "url": '/' + file_path, "thumb_url": None})
  \<close>
  The argument of the model is the value of \<^verbatim>\<open>request.args.get("file")\<close>:
  \<open>None\<close> when the query has no such parameter. \<^verbatim>\<open>not v\<close> is true of
  \<^verbatim>\<open>None\<close> and of the empty string, for the parameter and for the content type
  alike.
\<close>

definition missing_file_message :: string where
  "missing_file_message = ''Missing '' @ [CHR 0x22] @ ''file'' @ [CHR 0x22] @ '' parameter''"

definition preview_video :: "env \<Rightarrow> string \<Rightarrow> string \<Rightarrow> world \<Rightarrow> (http_error + json_object) \<times> world" where
  "preview_video E file_path abs_path w =
     (let hashed = hash_path E file_path;
          thumb_filename = hashed @ ''.jpg'';
          thumb_path = path_join THUMBNAIL_DIR thumb_filename;
          (success, w') = generate_video_thumbnail E abs_path thumb_path w
      in if \<not> success then (Inl (Abort 500 (Some ''Failed to generate thumbnail'')), w')
         else (Inr [(''type'', JString ''video''),
                    (''url'', JString (''/'' @ file_path)),
                    (''thumb_url'', JString (''/thumbnail/'' @ thumb_filename))], w'))"

definition preview :: "env \<Rightarrow> string option \<Rightarrow> world \<Rightarrow> (http_error + json_object) \<times> world" where
  "preview E arg w =
     (case arg of
        None \<Rightarrow> (Inl (Abort 400 (Some missing_file_message)), w)
      | Some file_path \<Rightarrow>
          (if file_path = [] then (Inl (Abort 400 (Some missing_file_message)), w)
           else
             (let abs_path = path_join (ROOT_DIR E) file_path
              in if \<not> isfile (disk w) abs_path then (Inl (Abort 404 None), w)
                 else
                   (case guess_type E abs_path of
                      None \<Rightarrow> (Inl (Abort 415 None), w)
                    | Some mime \<Rightarrow>
                        (if mime = [] then (Inl (Abort 415 None), w)
                         else if prefix ''image/'' mime then
                           (Inr [(''type'', JString ''image''),
                                 (''url'', JString (''/'' @ file_path)),
                                 (''thumb_url'', JString (''/'' @ file_path))], w)
                         else if prefix ''video/'' mime then
                           preview_video E file_path abs_path w
                         else
                           (Inr [(''type'', JString ''file''),
                                 (''url'', JString (''/'' @ file_path)),
                                 (''thumb_url'', JNull)], w))))))"

section \<open>Notions used to state the properties\<close>

text \<open>
  The two paths \<^verbatim>\<open>preview\<close> computes from the request parameter: the location of the
  file, and the destination of the thumbnail in the cache directory.
\<close>

abbreviation abs_path_of :: "env \<Rightarrow> string \<Rightarrow> string" where
  "abs_path_of E file_path \<equiv> path_join (ROOT_DIR E) file_path"

abbreviation thumb_path_of :: "env \<Rightarrow> string \<Rightarrow> string" where
  "thumb_path_of E file_path \<equiv> path_join THUMBNAIL_DIR (hash_path E file_path @ ''.jpg'')"

text \<open>
  The outcomes of the external process that make \<^verbatim>\<open>subprocess.run\<close> raise, and the
  file system it leaves behind.
\<close>

fun process_failed :: "proc_outcome \<Rightarrow> bool" where
  "process_failed LaunchFailed = True"
| "process_failed (Exited rc d) = (rc \<noteq> 0)"

fun disk_after :: "filesystem \<Rightarrow> proc_outcome \<Rightarrow> filesystem" where
  "disk_after d0 LaunchFailed = d0"
| "disk_after d0 (Exited rc d) = d"

text \<open>
  The containment invariant of the specification: a location lies within the root when,
  both being read as lists of path components with empty components and \<^verbatim>\<open>.\<close>
  dropped and \<^verbatim>\<open>..\<close> removing the component before it, the components of the root
  are the first components of the location. (The reading is lexical: symbolic links are
  not part of the model.) \<open>split_sep\<close> is \<^verbatim>\<open>str.split\<close> with a one-character
  separator.
\<close>

fun split_sep :: "char \<Rightarrow> string \<Rightarrow> string list" where
  "split_sep c [] = [[]]"
| "split_sep c (x # xs) =
     (if x = c then [] # split_sep c xs
      else (case split_sep c xs of [] \<Rightarrow> [[x]] | y # ys \<Rightarrow> (x # y) # ys))"

definition norm_step :: "string list \<Rightarrow> string \<Rightarrow> string list" where
  "norm_step stack name =
     (if name = [] \<or> name = ''.'' then stack
      else if name = ''..'' then butlast stack
      else stack @ [name])"

definition norm_components :: "string \<Rightarrow> string list" where
  "norm_components p = foldl norm_step [] (split_sep CHR ''/'' p)"

definition lies_within :: "string \<Rightarrow> string \<Rightarrow> bool" where
  "lies_within root p = prefix (norm_components root) (norm_components p)"

section \<open>The handlers that send files and list directories\<close>

text \<open>
  \<^verbatim>\<open>browse\<close> and \<^verbatim>\<open>serve_file\<close> hand the root directory and the request path
  to Flask's \<^verbatim>\<open>send_from_directory\<close>. That function and the functions of
  \<^verbatim>\<open>posixpath\<close> it relies on are library code; they are written out here as the
  library defines them, so that what the handlers do with a path can be computed.

  \<^verbatim>\<open>sep.join(comps)\<close>, and \<^verbatim>\<open>posixpath.normpath\<close>: the path is split at the
  separators; empty components and \<^verbatim>\<open>.\<close> are dropped; \<^verbatim>\<open>..\<close> removes the
  component before it, is kept at the front of a relative path and dropped at the front
  of an absolute one; one leading separator is kept, or two when the path starts with
  exactly two; the empty result is \<^verbatim>\<open>.\<close>.
\<close>

fun join_sep :: "string list \<Rightarrow> string" where
  "join_sep [] = []"
| "join_sep [x] = x"
| "join_sep (x # y # zs) = x @ ''/'' @ join_sep (y # zs)"

definition normpath_step :: "bool \<Rightarrow> string list \<Rightarrow> string \<Rightarrow> string list" where
  "normpath_step initial_slashes new_comps name =
     (if name = [] \<or> name = ''.'' then new_comps
      else if name \<noteq> ''..'' \<or> (\<not> initial_slashes \<and> new_comps = [])
              \<or> (new_comps \<noteq> [] \<and> last new_comps = ''..'')
        then new_comps @ [name]
      else if new_comps \<noteq> [] then butlast new_comps
      else new_comps)"

definition normpath :: "string \<Rightarrow> string" where
  "normpath path =
     (if path = [] then ''.''
      else
        let initial_slashes =
              (if \<not> prefix ''/'' path then 0
               else if prefix ''//'' path \<and> \<not> prefix ''///'' path then 2 else 1 :: nat);
            comps = foldl (normpath_step (initial_slashes \<noteq> 0)) [] (split_sep CHR ''/'' path);
            path' = replicate initial_slashes CHR ''/'' @ join_sep comps
        in if path' = [] then ''.'' else path')"

text \<open>
  \<^verbatim>\<open>werkzeug.security.safe_join(directory, pathname)\<close> with one path name, on a
  POSIX system: a non-empty path name is normalised; the result is refused
  (\<^verbatim>\<open>None\<close>) when it is absolute, is \<^verbatim>\<open>..\<close> or starts with \<^verbatim>\<open>../\<close>; otherwise
  it is joined to the directory (\<^verbatim>\<open>.\<close> standing for an empty directory).
  \<^verbatim>\<open>send_from_directory(directory, path)\<close> answers \<^verbatim>\<open>NotFound\<close> (status 404)
  when \<^verbatim>\<open>safe_join\<close> refuses the path or the joined path is not a regular file, and
  otherwise sends that file. (The directory is \<^verbatim>\<open>os.getcwd()\<close>, an absolute path, so
  joining the result to the application's own directory leaves it as it is.)
\<close>

definition safe_join :: "string \<Rightarrow> string \<Rightarrow> string option" where
  "safe_join directory pathname =
     (let directory = (if directory = [] then ''.'' else directory);
          filename = (if pathname \<noteq> [] then normpath pathname else pathname)
      in if prefix ''/'' filename \<or> filename = ''..'' \<or> prefix ''../'' filename then None
         else Some (path_join directory filename))"

text \<open>
  What the two handlers answer with: the file whose bytes are sent, or the page for a
  directory, given by the arguments of \<^verbatim>\<open>render_template_string\<close> (the entries, the
  path and the parent path). An entry is the dict the loop of \<^verbatim>\<open>browse\<close> appends.
\<close>

record entry =
  entry_name :: string
  entry_relpath :: string
  entry_is_dir :: bool
  entry_type :: string

datatype response = SentFile string | Page "entry list" string string

definition send_from_directory :: "string \<Rightarrow> string \<Rightarrow> world \<Rightarrow> (http_error + response) \<times> world" where
  "send_from_directory directory path w =
     (case safe_join directory path of
        None \<Rightarrow> (Inl (Abort 404 None), w)
      | Some path_str \<Rightarrow>
          (if \<not> isfile (disk w) path_str then (Inl (Abort 404 None), w)
           else (Inr (SentFile path_str), w)))"

text \<open>
  \<^verbatim>\<open>posixpath.dirname\<close>: everything up to the last separator, without trailing
  separators unless it consists of separators only. \<^verbatim>\<open>posixpath.abspath\<close> joins a
  relative path to the current directory and normalises. \<^verbatim>\<open>posixpath.relpath(path,
  start)\<close> raises \<^verbatim>\<open>ValueError\<close> on an empty path (\<open>None\<close> here); otherwise it
  drops the non-empty components the two absolute paths share from the front and climbs
  out of what is left of \<^verbatim>\<open>start\<close> with \<^verbatim>\<open>..\<close>. \<open>commonprefix\<close> is
  \<^verbatim>\<open>genericpath.commonprefix\<close> of two lists, \<open>join_all\<close> is \<^verbatim>\<open>join(*rel_list)\<close>.
\<close>

definition dirname :: "string \<Rightarrow> string" where
  "dirname p =
     (let head = rev (dropWhile (\<lambda>c. c \<noteq> CHR ''/'') (rev p))
      in if head \<noteq> [] \<and> head \<noteq> replicate (length head) CHR ''/''
         then rev (dropWhile (\<lambda>c. c = CHR ''/'') (rev head))
         else head)"

definition abspath :: "string \<Rightarrow> string \<Rightarrow> string" where
  "abspath cwd path = normpath (if prefix ''/'' path then path else path_join cwd path)"

fun commonprefix :: "'a list \<Rightarrow> 'a list \<Rightarrow> 'a list" where
  "commonprefix (x # xs) (y # ys) = (if x = y then x # commonprefix xs ys else [])"
| "commonprefix xs ys = []"

fun join_all :: "string list \<Rightarrow> string" where
  "join_all [] = []"
| "join_all (x # xs) = foldl path_join x xs"

definition relpath :: "string \<Rightarrow> string \<Rightarrow> string \<Rightarrow> string option" where
  "relpath cwd path start =
     (if path = [] then None
      else
        let start_list = filter (\<lambda>x. x \<noteq> []) (split_sep CHR ''/'' (abspath cwd start));
            path_list = filter (\<lambda>x. x \<noteq> []) (split_sep CHR ''/'' (abspath cwd path));
            i = length (commonprefix start_list path_list);
            rel_list = replicate (length start_list - i) ''..'' @ drop i path_list
        in if rel_list = [] then Some ''.'' else Some (join_all rel_list))"

definition replace_backslash :: "string \<Rightarrow> string" where
  "replace_backslash s = map (\<lambda>c. if c = CHR 0x5C then CHR ''/'' else c) s"

text \<open>
  \<^verbatim>\<open>
  @app.route('/', defaults={"path": ''})
  @app.route("/<path:path>")
  def browse(path):
      abs_path = os.path.join(ROOT_DIR, path)
      if not os.path.isdir(abs_path):
          return send_from_directory(ROOT_DIR, path)
      entries = []
      for name in sorted(os.listdir(abs_path)):
          full_path = os.path.join(abs_path, name)
          rel_path = os.path.relpath(full_path, ROOT_DIR).replace("\\", "/")
          is_dir = os.path.isdir(full_path)
          mime, _ = mimetypes.guess_type(full_path)
          if is_dir:
              type_ = "dir"
          elif mime:
              if mime.startswith("image/"):
                  type_ = "image"
              elif mime.startswith("video/"):
                  type_ = "video"
              else:
                  type_ = "file"
          else:
              type_ = "file"
          entries.append({"name": name, "relpath": rel_path, "is_dir": is_dir,
                          "type": type_})
      parent_path = os.path.dirname(path)
      return render_template_string(HTML_TEMPLATE, entries=entries, relpath=path,
                                    parent_path=parent_path)

  @app.route("/files/<path:path>")
  def serve_file(path):
      return send_from_directory(ROOT_DIR, path)
  \<close>
  \<open>browse_entry\<close> is one round of the loop and \<open>browse_entries\<close> the loop; the
  current directory of \<^verbatim>\<open>relpath\<close> is the root directory, which the program takes
  from \<^verbatim>\<open>os.getcwd()\<close> and never leaves. \<^verbatim>\<open>os.listdir\<close> is a parameter
  (\<open>None\<close> when it raises); \<^verbatim>\<open>sorted\<close> orders strings character by character.
  An exception that no handler catches (from \<^verbatim>\<open>os.listdir\<close> or
  \<^verbatim>\<open>os.path.relpath\<close>) is answered by Flask with status 500.
\<close>

definition browse_entry :: "env \<Rightarrow> world \<Rightarrow> string \<Rightarrow> string \<Rightarrow> entry option" where
  "browse_entry E w abs_path name =
     (let full_path = path_join abs_path name
      in case relpath (ROOT_DIR E) full_path (ROOT_DIR E) of
           None \<Rightarrow> None
         | Some r \<Rightarrow>
             (let rel_path = replace_backslash r;
                  is_dir = isdir (disk w) full_path;
                  kind =
                    (if is_dir then ''dir''
                     else (case guess_type E full_path of
                             None \<Rightarrow> ''file''
                           | Some mime \<Rightarrow>
                               (if mime = [] then ''file''
                                else if prefix ''image/'' mime then ''image''
                                else if prefix ''video/'' mime then ''video''
                                else ''file'')))
              in Some \<lparr>entry_name = name, entry_relpath = rel_path,
                       entry_is_dir = is_dir, entry_type = kind\<rparr>))"

fun browse_entries :: "env \<Rightarrow> world \<Rightarrow> string \<Rightarrow> string list \<Rightarrow> entry list option" where
  "browse_entries E w abs_path [] = Some []"
| "browse_entries E w abs_path (name # names) =
     (case browse_entry E w abs_path name of
        None \<Rightarrow> None
      | Some e \<Rightarrow>
          (case browse_entries E w abs_path names of
             None \<Rightarrow> None
           | Some es \<Rightarrow> Some (e # es)))"

definition browse :: "env \<Rightarrow> string \<Rightarrow> world \<Rightarrow> (http_error + response) \<times> world" where
  "browse E path w =
     (let abs_path = path_join (ROOT_DIR E) path
      in if \<not> isdir (disk w) abs_path then send_from_directory (ROOT_DIR E) path w
         else
           (case listdir E (disk w) abs_path of
              None \<Rightarrow> (Inl (Abort 500 None), w)
            | Some names \<Rightarrow>
                (case browse_entries E w abs_path (sort names) of
                   None \<Rightarrow> (Inl (Abort 500 None), w)
                 | Some entries \<Rightarrow> (Inr (Page entries path (dirname path)), w))))"

definition serve_file :: "env \<Rightarrow> string \<Rightarrow> world \<Rightarrow> (http_error + response) \<times> world" where
  "serve_file E path w = send_from_directory (ROOT_DIR E) path w"

text \<open>
  A list of path components in which \<^verbatim>\<open>..\<close> occurs only if it is the first one.
\<close>

definition dotdot_leads :: "string list \<Rightarrow> bool" where
  "dotdot_leads acc = (''..'' \<in> set acc \<longrightarrow> acc \<noteq> [] \<and> hd acc = ''..'')"

section \<open>Two calls of the generator at once\<close>

text \<open>
  The server answers requests concurrently, and \<^verbatim>\<open>generate_video_thumbnail\<close> takes no
  lock: between its test \<^verbatim>\<open>os.path.exists(thumb_path)\<close> and its call of
  \<^verbatim>\<open>subprocess.run\<close> another call can do either. The function is therefore split at
  the test into two steps, \<open>generate_check\<close> and \<open>generate_invoke\<close>, which a call
  takes one after the other (\<open>gen_step\<close>); done in a row they are the function itself.
  Two calls, each with its video path and thumbnail path, share the world; a schedule
  says which of them takes its next step. (The run of the external process is one step
  here, although it takes time: this leaves interleavings out and adds none.) A resolve
  call for a video only reads the disk before it calls the generator, and answers with
  the thumbnail url exactly when the generator returns \<^verbatim>\<open>True\<close>.
\<close>

datatype gen_state = Ready | Missing | Finished bool

definition generate_check :: "string \<Rightarrow> world \<Rightarrow> gen_state" where
  "generate_check thumb_path w =
     (if exists_path (disk w) thumb_path then Finished True else Missing)"

definition generate_invoke :: "env \<Rightarrow> string \<Rightarrow> string \<Rightarrow> world \<Rightarrow> bool \<times> world" where
  "generate_invoke E video_path thumb_path w =
     (let cmd = ffmpeg_cmd video_path thumb_path;
          w1 = w\<lparr>procs := procs w @ [cmd]\<rparr>
      in case run_process E cmd (disk w) of
           LaunchFailed \<Rightarrow> (False, w1)
         | Exited rc d \<Rightarrow>
             if rc = 0 then (True, w1\<lparr>disk := d\<rparr>) else (False, w1\<lparr>disk := d\<rparr>))"

fun gen_step :: "env \<Rightarrow> string \<times> string \<Rightarrow> gen_state \<times> world \<Rightarrow> gen_state \<times> world" where
  "gen_step E (video_path, thumb_path) (Ready, w) = (generate_check thumb_path w, w)"
| "gen_step E (video_path, thumb_path) (Missing, w) =
     (case generate_invoke E video_path thumb_path w of (ok, w') \<Rightarrow> (Finished ok, w'))"
| "gen_step E (video_path, thumb_path) (Finished ok, w) = (Finished ok, w)"

datatype caller = First | Second

type_synonym calls = "gen_state \<times> gen_state \<times> world"

fun call_step :: "env \<Rightarrow> string \<times> string \<Rightarrow> string \<times> string \<Rightarrow> calls \<Rightarrow> caller \<Rightarrow> calls" where
  "call_step E c1 c2 (s1, s2, w) First =
     (case gen_step E c1 (s1, w) of (s1', w') \<Rightarrow> (s1', s2, w'))"
| "call_step E c1 c2 (s1, s2, w) Second =
     (case gen_step E c2 (s2, w) of (s2', w') \<Rightarrow> (s1, s2', w'))"

definition run_calls :: "env \<Rightarrow> string \<times> string \<Rightarrow> string \<times> string \<Rightarrow> caller list \<Rightarrow> calls \<Rightarrow> calls" where
  "run_calls E c1 c2 schedule start = foldl (call_step E c1 c2) start schedule"

text \<open>
  The invariant of two first-time calls for the same paths: every command started so far
  is the one for these paths, a call that has not finished can start at most one more,
  and as long as none was started the disk is untouched and no call has finished.
\<close>

fun pending :: "gen_state \<Rightarrow> nat" where
  "pending (Finished ok) = 0"
| "pending _ = 1"

definition calls_inv :: "string \<Rightarrow> string \<Rightarrow> world \<Rightarrow> calls \<Rightarrow> bool" where
  "calls_inv v t w cfg =
     (case cfg of (s1, s2, w') \<Rightarrow>
        (\<exists>n. procs w' = procs w @ replicate n (ffmpeg_cmd v t) \<and>
             n + pending s1 + pending s2 \<le> 2 \<and>
             (n = 0 \<longrightarrow> disk w' = disk w \<and> pending s1 = 1 \<and> pending s2 = 1)))"

section \<open>A sample installation\<close>

text \<open>
  Concrete inputs on which the theorems are instantiated: a root directory with a few
  files, a content-type table for three extensions, the MD5 digests of the paths used
  below (any other path gets the digest of the empty string, which no example relies
  on), and four behaviours of the external tool: it writes its last argument and exits
  with 0; it exits with 0 and writes nothing (what ffmpeg does when the clip is shorter
  than the seek offset); it writes its last argument and then exits with 1; it exits
  with 1 and writes nothing.
\<close>

definition sample_guess_type :: "string \<Rightarrow> string option" where
  "sample_guess_type p =
     (if suffix ''.mp4'' p then Some ''video/mp4''
      else if suffix ''.png'' p then Some ''image/png''
      else if suffix ''.txt'' p then Some ''text/plain''
      else None)"

definition sample_md5 :: "string \<Rightarrow> string" where
  "sample_md5 p =
     (if p = ''videos/clip.mp4'' then ''631533dd92f8f54ea505b59d9920068e''
      else if p = ''/media/private/cam.mp4'' then ''90b67f1b1c27390b2056be8b6c1f99c7''
      else ''d41d8cd98f00b204e9800998ecf8427e'')"

definition writes_thumbnail :: "string list \<Rightarrow> filesystem \<Rightarrow> proc_outcome" where
  "writes_thumbnail cmd d = Exited 0 (d(last cmd \<mapsto> File))"

definition writes_nothing :: "string list \<Rightarrow> filesystem \<Rightarrow> proc_outcome" where
  "writes_nothing cmd d = Exited 0 d"

definition fails_after_writing :: "string list \<Rightarrow> filesystem \<Rightarrow> proc_outcome" where
  "fails_after_writing cmd d = Exited 1 (d(last cmd \<mapsto> File))"

definition fails_cleanly :: "string list \<Rightarrow> filesystem \<Rightarrow> proc_outcome" where
  "fails_cleanly cmd d = Exited 1 d"

definition sample_listdir :: "filesystem \<Rightarrow> string \<Rightarrow> string list option" where
  "sample_listdir d p =
     (if p = ''/srv/www/videos'' then Some [''clip.mp4'']
      else if p = ''/srv/www/../../media/private'' then Some [''cam.mp4'']
      else None)"

definition sample_env :: "(string list \<Rightarrow> filesystem \<Rightarrow> proc_outcome) \<Rightarrow> env" where
  "sample_env tool =
     \<lparr>ROOT_DIR = ''/srv/www'', guess_type = sample_guess_type,
      md5_hexdigest = sample_md5, run_process = tool, listdir = sample_listdir\<rparr>"

definition sample_disk :: filesystem where
  "sample_disk =
     [''/srv/www/videos'' \<mapsto> Dir,
      ''/srv/www/videos/clip.mp4'' \<mapsto> File,
      ''/srv/www/pics/a.png'' \<mapsto> File,
      ''/srv/www/docs/readme.txt'' \<mapsto> File,
      ''/srv/www/docs/Makefile'' \<mapsto> File,
      ''/media/private/cam.mp4'' \<mapsto> File,
      ''/srv/www/../../media/private'' \<mapsto> Dir,
      ''/srv/www/../../media/private/cam.mp4'' \<mapsto> File]"

definition sample_world :: world where
  "sample_world = \<lparr>disk = sample_disk, procs = []\<rparr>"

lemmas sample_defs =
  sample_env_def sample_world_def sample_disk_def sample_guess_type_def sample_md5_def
  path_join_def suffix_to_prefix isfile_def isdir_def exists_path_def THUMBNAIL_DIR_def

lemmas path_defs = lies_within_def norm_components_def norm_step_def

lemmas file_defs =
  browse_def serve_file_def send_from_directory_def safe_join_def normpath_def
  normpath_step_def browse_entry_def relpath_def abspath_def dirname_def
  replace_backslash_def Let_def

section \<open>Basic facts\<close>

lemma video_not_image: "prefix ''video/'' m \<Longrightarrow> \<not> prefix ''image/'' m \<and> m \<noteq> []"
  by (cases m) auto

lemma image_nonempty: "prefix ''image/'' m \<Longrightarrow> m \<noteq> []"
  by auto

lemma generate_cached:
  "exists_path (disk w) t \<Longrightarrow> generate_video_thumbnail E v t w = (True, w)"
  by (simp add: generate_video_thumbnail_def)

lemma generate_run:
  "\<not> exists_path (disk w) t \<Longrightarrow>
   generate_video_thumbnail E v t w =
     (\<not> process_failed (run_process E (ffmpeg_cmd v t) (disk w)),
      w\<lparr>procs := procs w @ [ffmpeg_cmd v t],
        disk := disk_after (disk w) (run_process E (ffmpeg_cmd v t) (disk w))\<rparr>)"
  by (cases "run_process E (ffmpeg_cmd v t) (disk w)")
     (simp_all add: generate_video_thumbnail_def Let_def)

lemma preview_video_path:
  assumes "f \<noteq> []"
    and "isfile (disk w) (path_join (ROOT_DIR E) f)"
    and "guess_type E (path_join (ROOT_DIR E) f) = Some mime"
    and "prefix ''video/'' mime"
  shows "preview E (Some f) w = preview_video E f (path_join (ROOT_DIR E) f) w"
  using assms video_not_image [OF assms(4)] by (simp add: preview_def)

lemma preview_video_result:
  "generate_video_thumbnail E a (thumb_path_of E f) w = (ok, w') \<Longrightarrow>
   preview_video E f a w =
     (if ok then Inr [(''type'', JString ''video''), (''url'', JString (''/'' @ f)),
                      (''thumb_url'', JString (''/thumbnail/'' @ hash_path E f @ ''.jpg''))]
      else Inl (Abort 500 (Some ''Failed to generate thumbnail'')), w')"
  by (simp add: preview_video_def Let_def)

subsection \<open>Path components\<close>

lemma split_sep_nonempty: "split_sep c xs \<noteq> []"
  by (induction xs) (auto split: list.splits)

lemma split_sep_append: "split_sep c (a @ c # b) = split_sep c a @ split_sep c b"
proof (induction a)
  case Nil
  then show ?case by simp
next
  case (Cons x a)
  then show ?case
    using split_sep_nonempty [of c a] by (auto split: list.splits)
qed

lemma norm_step_grows: "name \<noteq> ''..'' \<Longrightarrow> prefix stack (norm_step stack name)"
  by (simp add: norm_step_def)

lemma foldl_norm_step_grows:
  "''..'' \<notin> set cs \<Longrightarrow> prefix stack (foldl norm_step stack cs)"
proof (induction cs arbitrary: stack)
  case Nil
  then show ?case by simp
next
  case (Cons c cs)
  then have "prefix stack (norm_step stack c)"
    by (intro norm_step_grows) auto
  moreover have "prefix (norm_step stack c) (foldl norm_step (norm_step stack c) cs)"
    using Cons by simp
  ultimately show ?case
    by (metis foldl_Cons prefix_order.order_trans)
qed

lemma norm_components_sep:
  "norm_components (a @ CHR ''/'' # b)
     = foldl norm_step (norm_components a) (split_sep CHR ''/'' b)"
  by (simp add: norm_components_def split_sep_append)

lemma norm_components_trailing_sep: "norm_components (a @ ''/'') = norm_components a"
  using norm_components_sep [of a "[]"] by (simp add: norm_step_def)

subsection \<open>Normal forms of paths and safe joins\<close>

lemma split_sep_no_sep: "x \<in> set (split_sep c xs) \<Longrightarrow> c \<notin> set x"
proof (induction xs arbitrary: x)
  case Nil
  then show ?case by simp
next
  case (Cons a xs)
  then show ?case
    using split_sep_nonempty [of c xs]
    by (cases "split_sep c xs") (auto split: if_splits)
qed

lemma split_sep_single: "c \<notin> set a \<Longrightarrow> split_sep c a = [a]"
  by (induction a) auto

lemma split_join_sep:
  "comps \<noteq> [] \<Longrightarrow> \<forall>x\<in>set comps. CHR ''/'' \<notin> set x \<Longrightarrow>
   split_sep CHR ''/'' (join_sep comps) = comps"
proof (induction comps rule: join_sep.induct)
  case 1
  then show ?case by simp
next
  case (2 x)
  then show ?case by (simp add: split_sep_single)
next
  case (3 x y zs)
  then show ?case
    using split_sep_append [of "CHR ''/''" x "join_sep (y # zs)"]
    by (simp add: split_sep_single)
qed

lemma normpath_step_subset: "set (normpath_step b acc c) \<subseteq> insert c (set acc)"
  by (auto simp: normpath_step_def dest: in_set_butlastD)

lemma foldl_normpath_step_subset: "set (foldl (normpath_step b) acc cs) \<subseteq> set acc \<union> set cs"
proof (induction cs arbitrary: acc)
  case Nil
  then show ?case by simp
next
  case (Cons c cs)
  show ?case
    using Cons [of "normpath_step b acc c"] normpath_step_subset [of b acc c] by auto
qed

lemma normpath_step_keeps_dotdot:
  "''..'' \<in> set acc \<Longrightarrow> ''..'' \<in> set (normpath_step b acc c)"
proof -
  assume a: "''..'' \<in> set acc"
  have "''..'' \<in> set (butlast acc)" if "last acc \<noteq> ''..''"
    using a that by (metis append_butlast_last_id empty_iff empty_set in_set_conv_decomp
        rotate1.simps(2) set_ConsD set_rotate1)
  with a show ?thesis by (auto simp: normpath_step_def)
qed

lemma foldl_normpath_step_keeps_dotdot:
  "''..'' \<in> set acc \<Longrightarrow> ''..'' \<in> set (foldl (normpath_step b) acc cs)"
  by (induction cs arbitrary: acc) (simp_all add: normpath_step_keeps_dotdot)

lemma normpath_step_leads:
  "dotdot_leads acc \<Longrightarrow> dotdot_leads (normpath_step False acc c)"
  unfolding dotdot_leads_def normpath_step_def
  by (cases acc rule: rev_cases) (auto dest: in_set_butlastD simp: hd_append)

lemma foldl_normpath_step_leads:
  "dotdot_leads acc \<Longrightarrow> dotdot_leads (foldl (normpath_step False) acc cs)"
  by (induction cs arbitrary: acc) (simp_all add: normpath_step_leads)

lemma join_sep_dotdot:
  "out \<noteq> [] \<Longrightarrow> hd out = ''..'' \<Longrightarrow> join_sep out = ''..'' \<or> prefix ''../'' (join_sep out)"
  by (cases out rule: join_sep.cases) auto

lemma norm_step_normpath_step:
  assumes "''..'' \<notin> set acc" and "''..'' \<notin> set (normpath_step False acc c)"
  shows "norm_step (s @ acc) c = s @ normpath_step False acc c"
  using assms by (auto simp: norm_step_def normpath_step_def butlast_append split: if_splits)

lemma foldl_norm_step_normpath_step:
  "''..'' \<notin> set (foldl (normpath_step False) acc cs) \<Longrightarrow>
   foldl norm_step (s @ acc) cs = s @ foldl (normpath_step False) acc cs"
proof (induction cs arbitrary: acc)
  case Nil
  then show ?case by simp
next
  case (Cons c cs)
  have 1: "''..'' \<notin> set (normpath_step False acc c)"
    using Cons.prems foldl_normpath_step_keeps_dotdot [of "normpath_step False acc c" False cs]
    by auto
  then have 2: "''..'' \<notin> set acc"
    using normpath_step_keeps_dotdot [of acc False c] by auto
  show ?case
    using Cons.IH [of "normpath_step False acc c"] Cons.prems
    by (simp add: norm_step_normpath_step [OF 2 1])
qed

lemma normpath_relative:
  assumes "f \<noteq> []" and "\<not> prefix ''/'' f"
  shows "normpath f =
           (if foldl (normpath_step False) [] (split_sep CHR ''/'' f) = [] then ''.''
            else join_sep (foldl (normpath_step False) [] (split_sep CHR ''/'' f)))"
proof -
  have "join_sep cs = [] \<longleftrightarrow> cs = []" if "[] \<notin> set cs" for cs
    using that by (induction cs rule: join_sep.induct) auto
  moreover have "[] \<notin> set (foldl (normpath_step b) acc cs)" if "[] \<notin> set acc" for b acc cs
    using that
  proof (induction cs arbitrary: acc)
    case Nil
    then show ?case by simp
  next
    case (Cons c cs)
    have "[] \<notin> set (normpath_step b acc c)"
      using Cons.prems by (auto simp: normpath_step_def dest: in_set_butlastD)
    then show ?case using Cons.IH by simp
  qed
  ultimately show ?thesis
    using assms by (simp add: normpath_def Let_def)
qed

lemma normpath_absolute: "prefix ''/'' f \<Longrightarrow> prefix ''/'' (normpath f)"
  by (auto simp: normpath_def Let_def numeral_2_eq_2)

lemma safe_join_accepts:
  assumes "safe_join root f = Some p" and "f \<noteq> []"
  shows "\<not> prefix ''/'' f"
    and "''..'' \<notin> set (foldl (normpath_step False) [] (split_sep CHR ''/'' f))"
    and "p = path_join (if root = [] then ''.'' else root) (normpath f)"
proof -
  let ?out = "foldl (normpath_step False) [] (split_sep CHR ''/'' f)"
  from assms have n: "\<not> prefix ''/'' (normpath f)" "normpath f \<noteq> ''..''"
    "\<not> prefix ''../'' (normpath f)"
    and p: "p = path_join (if root = [] then ''.'' else root) (normpath f)"
    by (auto simp: safe_join_def Let_def split: if_splits)
  show rel: "\<not> prefix ''/'' f"
    using n(1) normpath_absolute by blast
  show "''..'' \<notin> set ?out"
  proof
    assume d: "''..'' \<in> set ?out"
    have "dotdot_leads ?out"
      by (rule foldl_normpath_step_leads) (simp add: dotdot_leads_def)
    with d have "?out \<noteq> []" "hd ?out = ''..''" by (auto simp: dotdot_leads_def)
    then have "join_sep ?out = ''..'' \<or> prefix ''../'' (join_sep ?out)"
      by (rule join_sep_dotdot)
    moreover have "normpath f = join_sep ?out"
      using normpath_relative [OF assms(2) rel] \<open>?out \<noteq> []\<close> by simp
    ultimately show False using n by simp
  qed
  show "p = path_join (if root = [] then ''.'' else root) (normpath f)" by (rule p)
qed

lemma lies_within_join_grows:
  assumes "\<not> prefix ''/'' f"
    and "\<And>s. prefix s (foldl norm_step s (split_sep CHR ''/'' f))"
  shows "lies_within root (path_join root f)"
proof -
  consider (empty) "root = []" | (slash) a where "root = a @ ''/''"
    | (plain) "root \<noteq> []" "\<not> suffix ''/'' root"
    by (auto simp: suffix_def)
  then show ?thesis
  proof cases
    case empty
    then show ?thesis by (simp add: lies_within_def norm_components_def norm_step_def)
  next
    case slash
    then have "path_join root f = a @ CHR ''/'' # f"
      using assms(1) by (simp add: path_join_def)
    moreover have "norm_components root = norm_components a"
      unfolding slash by (rule norm_components_trailing_sep)
    ultimately show ?thesis
      using assms(2) by (simp add: lies_within_def norm_components_sep)
  next
    case plain
    then have "path_join root f = root @ CHR ''/'' # f"
      using assms(1) by (simp add: path_join_def)
    then show ?thesis
      using assms(2) by (simp add: lies_within_def norm_components_sep)
  qed
qed

lemma lies_within_empty_root: "lies_within [] p"
  by (simp add: lies_within_def norm_components_def norm_step_def)

lemma safe_join_join_within:
  assumes "safe_join root f = Some p"
  shows "lies_within root (path_join root f)"
proof (cases "f = []")
  case True
  show ?thesis
    unfolding True by (rule lies_within_join_grows) (simp_all add: norm_step_def)
next
  case False
  note acc = safe_join_accepts [OF assms False]
  show ?thesis
  proof (rule lies_within_join_grows [OF acc(1)])
    fix s
    show "prefix s (foldl norm_step s (split_sep CHR ''/'' f))"
      using foldl_norm_step_normpath_step [OF acc(2), of s] by simp
  qed
qed

lemma safe_join_within:
  assumes "safe_join root f = Some p"
  shows "lies_within root p"
proof (cases "root = []")
  case True
  then show ?thesis by (simp add: lies_within_empty_root)
next
  case root: False
  show ?thesis
  proof (cases "f = []")
    case True
    with assms root have "p = path_join root []"
      by (simp add: safe_join_def)
    moreover have "lies_within root (path_join root [])"
      by (rule lies_within_join_grows) (simp_all add: norm_step_def)
    ultimately show ?thesis by simp
  next
    case False
    note acc = safe_join_accepts [OF assms False]
    let ?out = "foldl (normpath_step False) [] (split_sep CHR ''/'' f)"
    have p: "p = path_join root (normpath f)" using acc(3) root by simp
    have rel: "\<not> prefix ''/'' (normpath f)"
      using assms False by (auto simp: safe_join_def Let_def split: if_splits)
    have "prefix s (foldl norm_step s (split_sep CHR ''/'' (normpath f)))" for s
    proof (cases "?out = []")
      case True
      then have "normpath f = ''.''"
        using normpath_relative [OF False acc(1)] by simp
      then show ?thesis by (simp add: norm_step_def)
    next
      case nonempty: False
      have "\<forall>x\<in>set ?out. CHR ''/'' \<notin> set x"
        using foldl_normpath_step_subset [of False "[]" "split_sep CHR ''/'' f"]
          split_sep_no_sep [of _ "CHR ''/''" f] by auto
      then have "split_sep CHR ''/'' (normpath f) = ?out"
        using normpath_relative [OF False acc(1)] nonempty split_join_sep by simp
      then show ?thesis
        using foldl_norm_step_grows [OF acc(2), of s] by simp
    qed
    then show ?thesis
      unfolding p by (intro lies_within_join_grows rel)
  qed
qed

subsection \<open>The handlers and the location they resolve\<close>

lemma send_from_directory_sends:
  assumes "send_from_directory root path w = (Inr r, w')"
  shows "\<exists>p. r = SentFile p \<and> safe_join root path = Some p \<and> isfile (disk w) p \<and> w' = w"
  using assms by (auto simp: send_from_directory_def split: option.splits if_splits)

lemma send_from_directory_refuses:
  "safe_join root path = None \<Longrightarrow> send_from_directory root path w = (Inl (Abort 404 None), w)"
  by (simp add: send_from_directory_def)

lemma preview_video_not_404:
  "fst (preview_video E f a w) \<noteq> Inl (Abort 404 None)"
  by (cases "generate_video_thumbnail E a (thumb_path_of E f) w")
     (simp add: preview_video_result)

lemma preview_404_iff:
  "f \<noteq> [] \<Longrightarrow>
   (fst (preview E (Some f) w) = Inl (Abort 404 None)) = (\<not> isfile (disk w) (path_join (ROOT_DIR E) f))"
  using preview_video_not_404 [of E f "path_join (ROOT_DIR E) f" w]
  by (auto simp: preview_def Let_def split: option.splits)

lemma preview_accepts_file:
  "preview E (Some f) w = (Inr d, w') \<Longrightarrow> isfile (disk w) (path_join (ROOT_DIR E) f)"
  by (auto simp: preview_def Let_def split: if_splits)

lemma browse_sends:
  assumes "browse E path w = (Inr (SentFile p), w')"
  shows "send_from_directory (ROOT_DIR E) path w = (Inr (SentFile p), w')"
  using assms by (auto simp: browse_def Let_def split: if_splits option.splits)

lemma browse_lists:
  assumes "browse E path w = (Inr (Page es rel parent), w')"
  shows "isdir (disk w) (path_join (ROOT_DIR E) path)"
proof (rule ccontr)
  assume "\<not> isdir (disk w) (path_join (ROOT_DIR E) path)"
  then have "send_from_directory (ROOT_DIR E) path w = (Inr (Page es rel parent), w')"
    using assms by (simp add: browse_def)
  from send_from_directory_sends [OF this] show False by auto
qed

subsection \<open>The generator in two steps\<close>

lemma generate_invoke_eq:
  "generate_invoke E v t w =
     (\<not> process_failed (run_process E (ffmpeg_cmd v t) (disk w)),
      w\<lparr>procs := procs w @ [ffmpeg_cmd v t],
        disk := disk_after (disk w) (run_process E (ffmpeg_cmd v t) (disk w))\<rparr>)"
  by (cases "run_process E (ffmpeg_cmd v t) (disk w)")
     (simp_all add: generate_invoke_def Let_def)

lemma generate_split:
  "generate_video_thumbnail E v t w =
     (case generate_check t w of
        Finished ok \<Rightarrow> (ok, w)
      | _ \<Rightarrow> generate_invoke E v t w)"
  by (simp add: generate_video_thumbnail_def generate_check_def generate_invoke_def)

lemma gen_step_twice:
  "gen_step E (v, t) (gen_step E (v, t) (Ready, w)) =
     (Finished (fst (generate_video_thumbnail E v t w)), snd (generate_video_thumbnail E v t w))"
  by (simp add: generate_split generate_check_def split: prod.splits)

lemma run_calls_snoc:
  "run_calls E c1 c2 (schedule @ [who]) start = call_step E c1 c2 (run_calls E c1 c2 schedule start) who"
  by (simp add: run_calls_def)

lemma calls_inv_step:
  assumes "\<not> exists_path (disk w) t" and "calls_inv v t w cfg"
  shows "calls_inv v t w (call_step E (v, t) (v, t) cfg who)"
proof -
  obtain s1 s2 w' where cfg: "cfg = (s1, s2, w')" by (cases cfg)
  from assms(2) obtain n where n: "procs w' = procs w @ replicate n (ffmpeg_cmd v t)"
    "n + pending s1 + pending s2 \<le> 2"
    "n = 0 \<longrightarrow> disk w' = disk w \<and> pending s1 = 1 \<and> pending s2 = 1"
    by (auto simp: calls_inv_def cfg)
  have app: "replicate k x @ [x] = replicate (Suc k) x" for k and x :: "string list"
    by (simp add: replicate_append_same)
  show ?thesis
  proof (cases who)
    case First
    show ?thesis
    proof (cases s1)
      case Ready
      then show ?thesis using n assms(1) First
        by (auto simp: calls_inv_def cfg generate_check_def intro!: exI [of _ n])
    next
      case Missing
      then show ?thesis using n First
        by (auto simp: calls_inv_def cfg generate_invoke_eq app intro!: exI [of _ "Suc n"])
    next
      case (Finished ok)
      then show ?thesis using n First
        by (auto simp: calls_inv_def cfg intro!: exI [of _ n])
    qed
  next
    case Second
    show ?thesis
    proof (cases s2)
      case Ready
      then show ?thesis using n assms(1) Second
        by (auto simp: calls_inv_def cfg generate_check_def intro!: exI [of _ n])
    next
      case Missing
      then show ?thesis using n Second
        by (auto simp: calls_inv_def cfg generate_invoke_eq app intro!: exI [of _ "Suc n"])
    next
      case (Finished ok)
      then show ?thesis using n Second
        by (auto simp: calls_inv_def cfg intro!: exI [of _ n])
    qed
  qed
qed

lemma calls_inv_run:
  assumes "\<not> exists_path (disk w) t"
  shows "calls_inv v t w (run_calls E (v, t) (v, t) schedule (Ready, Ready, w))"
proof (induction schedule rule: rev_induct)
  case Nil
  show ?case by (simp add: run_calls_def calls_inv_def)
next
  case (snoc who schedule)
  then show ?case
    by (simp add: run_calls_snoc calls_inv_step [OF assms])
qed

lemma invocations_bounds:
  assumes "\<not> exists_path (disk w) t"
    and "run_calls E (v, t) (v, t) schedule (Ready, Ready, w) = (Finished a, Finished b, w')"
  shows "procs w' = procs w @ [ffmpeg_cmd v t] \<or> procs w' = procs w @ [ffmpeg_cmd v t, ffmpeg_cmd v t]"
proof -
  from calls_inv_run [OF assms(1), of v E schedule] assms(2)
  obtain n where "procs w' = procs w @ replicate n (ffmpeg_cmd v t)" "n \<le> 2" "n \<noteq> 0"
    by (auto simp: calls_inv_def)
  moreover from this have "n = 1 \<or> n = 2" by arith
  ultimately show ?thesis by (auto simp: numeral_2_eq_2)
qed

lemma interleaved:
  assumes "\<not> exists_path (disk w) t1" and "\<not> exists_path (disk w) t2"
  shows "run_calls E (v1, t1) (v2, t2) [First, Second, First, Second] (Ready, Ready, w) =
     (Finished (\<not> process_failed (run_process E (ffmpeg_cmd v1 t1) (disk w))),
      Finished (\<not> process_failed (run_process E (ffmpeg_cmd v2 t2)
         (disk_after (disk w) (run_process E (ffmpeg_cmd v1 t1) (disk w))))),
      w\<lparr>procs := procs w @ [ffmpeg_cmd v1 t1, ffmpeg_cmd v2 t2],
        disk := disk_after (disk_after (disk w) (run_process E (ffmpeg_cmd v1 t1) (disk w)))
                  (run_process E (ffmpeg_cmd v2 t2)
                     (disk_after (disk w) (run_process E (ffmpeg_cmd v1 t1) (disk w))))\<rparr>)"
  using assms by (simp add: run_calls_def generate_check_def generate_invoke_eq)

lemma sequential:
  assumes "\<not> exists_path (disk w) t"
    and "exists_path (disk_after (disk w) (run_process E (ffmpeg_cmd v t) (disk w))) t"
  shows "run_calls E (v, t) (v, t) [First, First, Second, Second] (Ready, Ready, w) =
     (Finished (\<not> process_failed (run_process E (ffmpeg_cmd v t) (disk w))),
      Finished True,
      w\<lparr>procs := procs w @ [ffmpeg_cmd v t],
        disk := disk_after (disk w) (run_process E (ffmpeg_cmd v t) (disk w))\<rparr>)"
  using assms by (simp add: run_calls_def generate_check_def generate_invoke_eq)

section \<open>Requests that are refused before anything else happens\<close>

text \<open>
  Claim C8. A request without the \<^verbatim>\<open>file\<close> parameter (or with an empty one,
  which \<^verbatim>\<open>not file_path\<close> treats alike) is answered with status 400.
  A request whose path does not name an existing file that is not a directory (nothing is
  there, or a directory is) is answered with status 404. Both answers are given for every
  content-type table, hash function and external tool, and they leave the world as it
  was: neither the classification nor the generation has taken place.
\<close>

theorem preview_bad_request_not_found:
  "preview E None w = (Inl (Abort 400 (Some missing_file_message)), w) \<and>
   preview E (Some []) w = (Inl (Abort 400 (Some missing_file_message)), w) \<and>
   status_code (Abort 400 (Some missing_file_message)) = 400 \<and>
   (f \<noteq> [] \<and>
    (\<not> exists_path (disk w) (path_join (ROOT_DIR E) f) \<or> isdir (disk w) (path_join (ROOT_DIR E) f))
    \<longrightarrow> preview E (Some f) w = (Inl (Abort 404 None), w))"
  by (auto simp: preview_def isfile_def isdir_def exists_path_def Let_def)

theorem preview_bad_request_not_found_witness:
  "preview (sample_env writes_thumbnail) None sample_world
     = (Inl (Abort 400 (Some missing_file_message)), sample_world) \<and>
   isdir (disk sample_world) (path_join (ROOT_DIR (sample_env writes_thumbnail)) ''videos'') \<and>
   preview (sample_env writes_thumbnail) (Some ''videos'') sample_world
     = (Inl (Abort 404 None), sample_world) \<and>
   \<not> exists_path (disk sample_world) (path_join (ROOT_DIR (sample_env writes_thumbnail)) ''videos/gone.mp4'') \<and>
   preview (sample_env writes_thumbnail) (Some ''videos/gone.mp4'') sample_world
     = (Inl (Abort 404 None), sample_world)"
  using preview_bad_request_not_found [of "sample_env writes_thumbnail" sample_world "''videos''"]
    preview_bad_request_not_found [of "sample_env writes_thumbnail" sample_world "''videos/gone.mp4''"]
  by (simp add: sample_defs)

section \<open>Images\<close>

text \<open>
  Claim C9. When the request names a regular file whose content type starts with
  \<^verbatim>\<open>image/\<close>, \<^verbatim>\<open>preview\<close> succeeds, the \<^verbatim>\<open>thumb_url\<close> of the answer is its
  \<^verbatim>\<open>url\<close>, and the world is left as it was: no file is written and no process is
  started.
\<close>

theorem preview_image:
  assumes "f \<noteq> []"
    and "isfile (disk w) (path_join (ROOT_DIR E) f)"
    and "guess_type E (path_join (ROOT_DIR E) f) = Some mime"
    and "prefix ''image/'' mime"
  shows "\<exists>d. preview E (Some f) w = (Inr d, w) \<and>
           d = [(''type'', JString ''image''), (''url'', JString (''/'' @ f)),
                (''thumb_url'', JString (''/'' @ f))] \<and>
           map_of d ''thumb_url'' = map_of d ''url''"
  using assms image_nonempty [OF assms(4)] by (simp add: preview_def)

theorem preview_image_witness:
  "isfile (disk sample_world) (path_join (ROOT_DIR (sample_env writes_thumbnail)) ''pics/a.png'') \<and>
   guess_type (sample_env writes_thumbnail) (path_join (ROOT_DIR (sample_env writes_thumbnail)) ''pics/a.png'')
     = Some ''image/png'' \<and>
   preview (sample_env writes_thumbnail) (Some ''pics/a.png'') sample_world
     = (Inr [(''type'', JString ''image''), (''url'', JString ''/pics/a.png''),
             (''thumb_url'', JString ''/pics/a.png'')], sample_world)"
  using preview_image [of "''pics/a.png''" sample_world "sample_env writes_thumbnail" "''image/png''"]
  by (simp add: sample_defs)

section \<open>Videos\<close>

text \<open>
  Claim C6. When the request names a regular file whose content type starts with
  \<^verbatim>\<open>video/\<close> and the generator reports success, the answer has type
  \<^verbatim>\<open>video\<close>, the url \<^verbatim>\<open>/\<close> followed by the path, and the thumbnail url
  \<^verbatim>\<open>/thumbnail/K.jpg\<close>, where \<open>K\<close> is the MD5 digest of the path as the request gave
  it. The instance below is the path \<^verbatim>\<open>videos/clip.mp4\<close> of type \<^verbatim>\<open>video/mp4\<close>.
\<close>

theorem preview_video_descriptor:
  assumes "f \<noteq> []"
    and "isfile (disk w) (path_join (ROOT_DIR E) f)"
    and "guess_type E (path_join (ROOT_DIR E) f) = Some mime"
    and "prefix ''video/'' mime"
    and "generate_video_thumbnail E (path_join (ROOT_DIR E) f)
           (path_join THUMBNAIL_DIR (hash_path E f @ ''.jpg'')) w = (True, w')"
  shows "preview E (Some f) w =
           (Inr [(''type'', JString ''video''), (''url'', JString (''/'' @ f)),
                 (''thumb_url'', JString (''/thumbnail/'' @ hash_path E f @ ''.jpg''))], w') \<and>
         hash_path E f = md5_hexdigest E f"
  using preview_video_path [OF assms(1-4)] preview_video_result [of E _ f w True w'] assms(5)
  by (simp add: hash_path_def)

theorem preview_video_descriptor_witness:
  "isfile (disk sample_world) (path_join (ROOT_DIR (sample_env writes_thumbnail)) ''videos/clip.mp4'') \<and>
   guess_type (sample_env writes_thumbnail)
     (path_join (ROOT_DIR (sample_env writes_thumbnail)) ''videos/clip.mp4'') = Some ''video/mp4'' \<and>
   hash_path (sample_env writes_thumbnail) ''videos/clip.mp4'' = ''631533dd92f8f54ea505b59d9920068e'' \<and>
   preview (sample_env writes_thumbnail) (Some ''videos/clip.mp4'') sample_world =
     (Inr [(''type'', JString ''video''), (''url'', JString ''/videos/clip.mp4''),
           (''thumb_url'', JString ''/thumbnail/631533dd92f8f54ea505b59d9920068e.jpg'')],
      \<lparr>disk = sample_disk(''/tmp/web_file_viewer/631533dd92f8f54ea505b59d9920068e.jpg'' \<mapsto> File),
       procs = [ffmpeg_cmd ''/srv/www/videos/clip.mp4''
                  ''/tmp/web_file_viewer/631533dd92f8f54ea505b59d9920068e.jpg'']\<rparr>)"
proof -
  let ?E = "sample_env writes_thumbnail"
  let ?w = "\<lparr>disk = sample_disk(''/tmp/web_file_viewer/631533dd92f8f54ea505b59d9920068e.jpg'' \<mapsto> File),
       procs = [ffmpeg_cmd ''/srv/www/videos/clip.mp4''
                  ''/tmp/web_file_viewer/631533dd92f8f54ea505b59d9920068e.jpg'']\<rparr>"
  have g: "generate_video_thumbnail ?E (path_join (ROOT_DIR ?E) ''videos/clip.mp4'')
             (path_join THUMBNAIL_DIR (hash_path ?E ''videos/clip.mp4'' @ ''.jpg'')) sample_world
           = (True, ?w)"
    by (simp add: generate_video_thumbnail_def sample_defs hash_path_def writes_thumbnail_def
        ffmpeg_cmd_def Let_def)
  show ?thesis
    using preview_video_descriptor [of "''videos/clip.mp4''" sample_world ?E "''video/mp4''" ?w, OF _ _ _ _ g]
    by (simp add: sample_defs hash_path_def)
qed

section \<open>The shape of every answer\<close>

text \<open>
  Claim C10. Every successful answer of \<^verbatim>\<open>preview\<close> is an object with exactly the
  fields \<^verbatim>\<open>type\<close>, \<^verbatim>\<open>url\<close> and \<^verbatim>\<open>thumb_url\<close>; the type is \<^verbatim>\<open>image\<close>,
  \<^verbatim>\<open>video\<close> or \<^verbatim>\<open>file\<close>; and the url is \<^verbatim>\<open>/\<close> followed by the \<^verbatim>\<open>file\<close>
  parameter as the request gave it.
\<close>

theorem preview_response_shape:
  assumes "preview E arg w = (Inr d, w')"
  shows "\<exists>f. arg = Some f \<and>
           map fst d = [''type'', ''url'', ''thumb_url''] \<and>
           map_of d ''type'' \<in> {Some (JString ''image''), Some (JString ''video''), Some (JString ''file'')} \<and>
           map_of d ''url'' = Some (JString (''/'' @ f))"
  using assms
  by (auto simp: preview_def preview_video_def Let_def
      split: option.splits if_splits prod.splits)

theorem preview_response_shape_witness:
  "preview (sample_env writes_thumbnail) (Some ''docs/readme.txt'') sample_world =
     (Inr [(''type'', JString ''file''), (''url'', JString ''/docs/readme.txt''),
           (''thumb_url'', JNull)], sample_world) \<and>
   map fst [(''type'', JString ''file''), (''url'', JString ''/docs/readme.txt''),
            (''thumb_url'', JNull)] = [''type'', ''url'', ''thumb_url''] \<and>
   map_of [(''type'', JString ''file''), (''url'', JString ''/docs/readme.txt''),
           (''thumb_url'', JNull)] ''type'' = Some (JString ''file'') \<and>
   map_of [(''type'', JString ''file''), (''url'', JString ''/docs/readme.txt''),
           (''thumb_url'', JNull)] ''url'' = Some (JString (''/'' @ ''docs/readme.txt''))"
proof -
  have p: "preview (sample_env writes_thumbnail) (Some ''docs/readme.txt'') sample_world =
     (Inr [(''type'', JString ''file''), (''url'', JString ''/docs/readme.txt''),
           (''thumb_url'', JNull)], sample_world)"
    by (simp add: preview_def sample_defs)
  from preview_response_shape [OF p] p show ?thesis by simp
qed

section \<open>Files of other types\<close>

text \<open>
  Claim C1 says that a regular file whose content type cannot be determined from its name
  gets a successful answer with a null thumbnail url. The handler refuses such a file
  with status 415, as the sample file \<^verbatim>\<open>docs/Makefile\<close> shows.
\<close>

theorem preview_undetermined_type_counterexample:
  "isfile (disk sample_world) (path_join (ROOT_DIR (sample_env writes_thumbnail)) ''docs/Makefile'') \<and>
   guess_type (sample_env writes_thumbnail)
     (path_join (ROOT_DIR (sample_env writes_thumbnail)) ''docs/Makefile'') = None \<and>
   preview (sample_env writes_thumbnail) (Some ''docs/Makefile'') sample_world
     = (Inl (Abort 415 None), sample_world)"
  by (simp add: preview_def sample_defs)

text \<open>
  Claim C1, amended. For a regular file, \<^verbatim>\<open>preview\<close> answers with status 415 when the
  content type is undetermined (\<^verbatim>\<open>None\<close> or empty), and succeeds with type
  \<^verbatim>\<open>file\<close> and a null thumbnail url when the content type is determined and starts
  with neither \<^verbatim>\<open>image/\<close> nor \<^verbatim>\<open>video/\<close>. In both cases the world is unchanged.
\<close>

theorem preview_other_type:
  assumes "f \<noteq> []"
    and "isfile (disk w) (path_join (ROOT_DIR E) f)"
  shows "(guess_type E (path_join (ROOT_DIR E) f) = None \<or>
          guess_type E (path_join (ROOT_DIR E) f) = Some []
          \<longrightarrow> preview E (Some f) w = (Inl (Abort 415 None), w)) \<and>
         (guess_type E (path_join (ROOT_DIR E) f) = Some mime \<and> mime \<noteq> [] \<and>
          \<not> prefix ''image/'' mime \<and> \<not> prefix ''video/'' mime
          \<longrightarrow> preview E (Some f) w =
                (Inr [(''type'', JString ''file''), (''url'', JString (''/'' @ f)),
                      (''thumb_url'', JNull)], w))"
  using assms by (auto simp: preview_def)

theorem preview_other_type_witness:
  "isfile (disk sample_world) (path_join (ROOT_DIR (sample_env writes_thumbnail)) ''docs/Makefile'') \<and>
   guess_type (sample_env writes_thumbnail)
     (path_join (ROOT_DIR (sample_env writes_thumbnail)) ''docs/Makefile'') = None \<and>
   preview (sample_env writes_thumbnail) (Some ''docs/Makefile'') sample_world
     = (Inl (Abort 415 None), sample_world) \<and>
   isfile (disk sample_world) (path_join (ROOT_DIR (sample_env writes_thumbnail)) ''docs/readme.txt'') \<and>
   guess_type (sample_env writes_thumbnail)
     (path_join (ROOT_DIR (sample_env writes_thumbnail)) ''docs/readme.txt'') = Some ''text/plain'' \<and>
   preview (sample_env writes_thumbnail) (Some ''docs/readme.txt'') sample_world
     = (Inr [(''type'', JString ''file''), (''url'', JString ''/docs/readme.txt''),
             (''thumb_url'', JNull)], sample_world)"
  using preview_other_type [of "''docs/Makefile''" sample_world "sample_env writes_thumbnail"]
    preview_other_type [of "''docs/readme.txt''" sample_world "sample_env writes_thumbnail" "''text/plain''"]
  by (simp add: sample_defs)

section \<open>The thumbnail generator\<close>

text \<open>
  Claim C7 says that success of the generator requires a zero exit status and a file at
  the destination afterwards. The generator does not look at the destination after the
  process has run: with a tool that exits with 0 and writes nothing it reports success
  and no file is there.
\<close>

theorem generate_success_without_file_counterexample:
  "generate_video_thumbnail (sample_env writes_nothing) ''/srv/www/videos/clip.mp4''
     ''/tmp/web_file_viewer/631533dd92f8f54ea505b59d9920068e.jpg'' sample_world
     = (True, \<lparr>disk = sample_disk,
              procs = [ffmpeg_cmd ''/srv/www/videos/clip.mp4''
                         ''/tmp/web_file_viewer/631533dd92f8f54ea505b59d9920068e.jpg'']\<rparr>) \<and>
   \<not> exists_path sample_disk ''/tmp/web_file_viewer/631533dd92f8f54ea505b59d9920068e.jpg''"
  by (simp add: generate_video_thumbnail_def sample_defs writes_nothing_def Let_def)

text \<open>
  Claim C7, amended. When a file exists at the destination, the generator reports success
  and starts no process. Otherwise it starts the process once and reports failure if and
  only if the process could not be started or ended with a return code other than 0; the
  file system is then as the process left it, and whether a file is now at the
  destination is not checked.
\<close>

theorem generate_reports:
  "(exists_path (disk w) t \<longrightarrow> generate_video_thumbnail E v t w = (True, w)) \<and>
   (\<not> exists_path (disk w) t \<longrightarrow>
      fst (generate_video_thumbnail E v t w)
        = (\<not> process_failed (run_process E (ffmpeg_cmd v t) (disk w))) \<and>
      procs (snd (generate_video_thumbnail E v t w)) = procs w @ [ffmpeg_cmd v t] \<and>
      disk (snd (generate_video_thumbnail E v t w))
        = disk_after (disk w) (run_process E (ffmpeg_cmd v t) (disk w)))"
  by (simp add: generate_cached generate_run)

theorem generate_reports_witness:
  "\<not> exists_path (disk sample_world) ''/tmp/web_file_viewer/631533dd92f8f54ea505b59d9920068e.jpg'' \<and>
   generate_video_thumbnail (sample_env fails_cleanly) ''/srv/www/videos/clip.mp4''
     ''/tmp/web_file_viewer/631533dd92f8f54ea505b59d9920068e.jpg'' sample_world
     = (False, sample_world\<lparr>procs := [ffmpeg_cmd ''/srv/www/videos/clip.mp4''
          ''/tmp/web_file_viewer/631533dd92f8f54ea505b59d9920068e.jpg'']\<rparr>) \<and>
   exists_path
     (disk \<lparr>disk = sample_disk(''/tmp/web_file_viewer/631533dd92f8f54ea505b59d9920068e.jpg'' \<mapsto> File),
            procs = []\<rparr>)
     ''/tmp/web_file_viewer/631533dd92f8f54ea505b59d9920068e.jpg'' \<and>
   generate_video_thumbnail (sample_env fails_cleanly) ''/srv/www/videos/clip.mp4''
     ''/tmp/web_file_viewer/631533dd92f8f54ea505b59d9920068e.jpg''
     \<lparr>disk = sample_disk(''/tmp/web_file_viewer/631533dd92f8f54ea505b59d9920068e.jpg'' \<mapsto> File),
      procs = []\<rparr>
     = (True,
        \<lparr>disk = sample_disk(''/tmp/web_file_viewer/631533dd92f8f54ea505b59d9920068e.jpg'' \<mapsto> File),
         procs = []\<rparr>)"
  using generate_reports [of sample_world
      "''/tmp/web_file_viewer/631533dd92f8f54ea505b59d9920068e.jpg''" "sample_env fails_cleanly"
      "''/srv/www/videos/clip.mp4''"]
    generate_reports [of
      "\<lparr>disk = sample_disk(''/tmp/web_file_viewer/631533dd92f8f54ea505b59d9920068e.jpg'' \<mapsto> File),
        procs = []\<rparr>"
      "''/tmp/web_file_viewer/631533dd92f8f54ea505b59d9920068e.jpg''" "sample_env fails_cleanly"
      "''/srv/www/videos/clip.mp4''"]
  by (cases "generate_video_thumbnail (sample_env fails_cleanly) ''/srv/www/videos/clip.mp4''
     ''/tmp/web_file_viewer/631533dd92f8f54ea505b59d9920068e.jpg'' sample_world")
    (simp add: sample_defs fails_cleanly_def)

section \<open>Failure of the external tool\<close>

text \<open>
  Claim C2 says that after a failed run of the tool no artifact is left under the cache
  key. The handler removes nothing: with a tool that writes its output and then exits
  with 1, the first request is answered with status 500, the file stays at the
  destination, and the same request is then answered with the thumbnail url, with no
  further run of the tool.
\<close>

theorem preview_failure_leaves_artifact_counterexample:
  "preview (sample_env fails_after_writing) (Some ''videos/clip.mp4'') sample_world =
     (Inl (Abort 500 (Some ''Failed to generate thumbnail'')),
      \<lparr>disk = sample_disk(''/tmp/web_file_viewer/631533dd92f8f54ea505b59d9920068e.jpg'' \<mapsto> File),
       procs = [ffmpeg_cmd ''/srv/www/videos/clip.mp4''
                  ''/tmp/web_file_viewer/631533dd92f8f54ea505b59d9920068e.jpg'']\<rparr>) \<and>
   preview (sample_env fails_after_writing) (Some ''videos/clip.mp4'')
     \<lparr>disk = sample_disk(''/tmp/web_file_viewer/631533dd92f8f54ea505b59d9920068e.jpg'' \<mapsto> File),
      procs = [ffmpeg_cmd ''/srv/www/videos/clip.mp4''
                 ''/tmp/web_file_viewer/631533dd92f8f54ea505b59d9920068e.jpg'']\<rparr> =
     (Inr [(''type'', JString ''video''), (''url'', JString ''/videos/clip.mp4''),
           (''thumb_url'', JString ''/thumbnail/631533dd92f8f54ea505b59d9920068e.jpg'')],
      \<lparr>disk = sample_disk(''/tmp/web_file_viewer/631533dd92f8f54ea505b59d9920068e.jpg'' \<mapsto> File),
       procs = [ffmpeg_cmd ''/srv/www/videos/clip.mp4''
                  ''/tmp/web_file_viewer/631533dd92f8f54ea505b59d9920068e.jpg'']\<rparr>)"
  by (simp add: preview_def preview_video_def generate_video_thumbnail_def hash_path_def
      fails_after_writing_def ffmpeg_cmd_def Let_def sample_defs)

text \<open>
  Claim C2, amended. For a regular file of a video type with no file at the thumbnail
  destination, if the tool ends with a return code other than 0 then \<^verbatim>\<open>preview\<close>
  fails with status 500 after one run of the tool, and the file system is as the tool
  left it. If the tool left no file at the destination (and the video is still there),
  the same request runs the tool again.
\<close>

theorem preview_tool_failure:
  assumes "f \<noteq> []"
    and "isfile (disk w) (path_join (ROOT_DIR E) f)"
    and "guess_type E (path_join (ROOT_DIR E) f) = Some mime"
    and "prefix ''video/'' mime"
    and "\<not> exists_path (disk w) (path_join THUMBNAIL_DIR (hash_path E f @ ''.jpg''))"
    and "run_process E (ffmpeg_cmd (path_join (ROOT_DIR E) f)
           (path_join THUMBNAIL_DIR (hash_path E f @ ''.jpg''))) (disk w) = Exited rc d"
    and "rc \<noteq> 0"
  shows "preview E (Some f) w =
           (Inl (Abort 500 (Some ''Failed to generate thumbnail'')),
            w\<lparr>procs := procs w @ [ffmpeg_cmd (path_join (ROOT_DIR E) f)
                 (path_join THUMBNAIL_DIR (hash_path E f @ ''.jpg''))], disk := d\<rparr>) \<and>
         (isfile d (path_join (ROOT_DIR E) f) \<and>
          \<not> exists_path d (path_join THUMBNAIL_DIR (hash_path E f @ ''.jpg''))
          \<longrightarrow> procs (snd (preview E (Some f)
                 (w\<lparr>procs := procs w @ [ffmpeg_cmd (path_join (ROOT_DIR E) f)
                    (path_join THUMBNAIL_DIR (hash_path E f @ ''.jpg''))], disk := d\<rparr>)))
               = procs w @ [ffmpeg_cmd (path_join (ROOT_DIR E) f)
                    (path_join THUMBNAIL_DIR (hash_path E f @ ''.jpg'')),
                  ffmpeg_cmd (path_join (ROOT_DIR E) f)
                    (path_join THUMBNAIL_DIR (hash_path E f @ ''.jpg''))])"
proof -
  let ?a = "path_join (ROOT_DIR E) f"
  let ?t = "path_join THUMBNAIL_DIR (hash_path E f @ ''.jpg'')"
  let ?w1 = "w\<lparr>procs := procs w @ [ffmpeg_cmd ?a ?t], disk := d\<rparr>"
  have g: "generate_video_thumbnail E ?a ?t w = (False, ?w1)"
    using assms(5-7) by (simp add: generate_run)
  have first: "preview E (Some f) w = (Inl (Abort 500 (Some ''Failed to generate thumbnail'')), ?w1)"
    using preview_video_path [OF assms(1-4)] preview_video_result [OF g] by simp
  have second: "procs (snd (preview E (Some f) ?w1)) = procs w @ [ffmpeg_cmd ?a ?t, ffmpeg_cmd ?a ?t]"
    if a: "isfile d ?a" and t: "\<not> exists_path d ?t"
  proof -
    have "preview E (Some f) ?w1 = preview_video E f ?a ?w1"
      using a assms by (intro preview_video_path) simp_all
    moreover have "\<not> exists_path (disk ?w1) ?t" using t by simp
    from generate_run [OF this, of E ?a]
    have "procs (snd (generate_video_thumbnail E ?a ?t ?w1)) = procs w @ [ffmpeg_cmd ?a ?t, ffmpeg_cmd ?a ?t]"
      by simp
    ultimately show ?thesis
      by (cases "generate_video_thumbnail E ?a ?t ?w1") (simp add: preview_video_result)
  qed
  show ?thesis using first second by blast
qed

theorem preview_tool_failure_witness:
  "isfile (disk sample_world) (path_join (ROOT_DIR (sample_env fails_cleanly)) ''videos/clip.mp4'') \<and>
   \<not> exists_path (disk sample_world)
       (path_join THUMBNAIL_DIR (hash_path (sample_env fails_cleanly) ''videos/clip.mp4'' @ ''.jpg'')) \<and>
   preview (sample_env fails_cleanly) (Some ''videos/clip.mp4'') sample_world =
     (Inl (Abort 500 (Some ''Failed to generate thumbnail'')),
      \<lparr>disk = sample_disk,
       procs = [ffmpeg_cmd ''/srv/www/videos/clip.mp4''
                  ''/tmp/web_file_viewer/631533dd92f8f54ea505b59d9920068e.jpg'']\<rparr>) \<and>
   procs (snd (preview (sample_env fails_cleanly) (Some ''videos/clip.mp4'')
     \<lparr>disk = sample_disk,
      procs = [ffmpeg_cmd ''/srv/www/videos/clip.mp4''
                 ''/tmp/web_file_viewer/631533dd92f8f54ea505b59d9920068e.jpg'']\<rparr>)) =
     [ffmpeg_cmd ''/srv/www/videos/clip.mp4''
        ''/tmp/web_file_viewer/631533dd92f8f54ea505b59d9920068e.jpg'',
      ffmpeg_cmd ''/srv/www/videos/clip.mp4''
        ''/tmp/web_file_viewer/631533dd92f8f54ea505b59d9920068e.jpg'']"
  using preview_tool_failure [of "''videos/clip.mp4''" sample_world "sample_env fails_cleanly"
      "''video/mp4''" 1 sample_disk]
  by (simp add: sample_defs hash_path_def fails_cleanly_def)

section \<open>Asking twice\<close>

text \<open>
  Claim C4 says that the second of two requests for a video starts no process. Whether it
  does depends on what the tool left behind: the generator reports success on a zero
  exit status alone, so with a tool that exits with 0 and writes nothing both requests
  succeed with the same thumbnail url and each of them runs the tool.
\<close>

theorem preview_twice_counterexample:
  "preview (sample_env writes_nothing) (Some ''videos/clip.mp4'') sample_world =
     (Inr [(''type'', JString ''video''), (''url'', JString ''/videos/clip.mp4''),
           (''thumb_url'', JString ''/thumbnail/631533dd92f8f54ea505b59d9920068e.jpg'')],
      \<lparr>disk = sample_disk,
       procs = [ffmpeg_cmd ''/srv/www/videos/clip.mp4''
                  ''/tmp/web_file_viewer/631533dd92f8f54ea505b59d9920068e.jpg'']\<rparr>) \<and>
   preview (sample_env writes_nothing) (Some ''videos/clip.mp4'')
     \<lparr>disk = sample_disk,
      procs = [ffmpeg_cmd ''/srv/www/videos/clip.mp4''
                 ''/tmp/web_file_viewer/631533dd92f8f54ea505b59d9920068e.jpg'']\<rparr> =
     (Inr [(''type'', JString ''video''), (''url'', JString ''/videos/clip.mp4''),
           (''thumb_url'', JString ''/thumbnail/631533dd92f8f54ea505b59d9920068e.jpg'')],
      \<lparr>disk = sample_disk,
       procs = [ffmpeg_cmd ''/srv/www/videos/clip.mp4''
                  ''/tmp/web_file_viewer/631533dd92f8f54ea505b59d9920068e.jpg'',
                ffmpeg_cmd ''/srv/www/videos/clip.mp4''
                  ''/tmp/web_file_viewer/631533dd92f8f54ea505b59d9920068e.jpg'']\<rparr>)"
  by (simp add: preview_def preview_video_def generate_video_thumbnail_def hash_path_def
      writes_nothing_def Let_def sample_defs)

text \<open>
  Claim C4, amended. If a request for a video succeeds and afterwards the video is still
  a regular file and a file exists at the thumbnail destination, then the same request
  asked again succeeds with the same answer, whose thumbnail url is that of the cache key,
  and leaves the world as it is: it starts no process, because the generator takes the
  existing destination file for success.
\<close>

theorem preview_twice:
  assumes "guess_type E (path_join (ROOT_DIR E) f) = Some mime"
    and "prefix ''video/'' mime"
    and "preview E (Some f) w = (Inr d, w1)"
    and "isfile (disk w1) (path_join (ROOT_DIR E) f)"
    and "exists_path (disk w1) (path_join THUMBNAIL_DIR (hash_path E f @ ''.jpg''))"
  shows "preview E (Some f) w1 = (Inr d, w1) \<and>
         map_of d ''thumb_url'' = Some (JString (''/thumbnail/'' @ hash_path E f @ ''.jpg''))"
proof -
  let ?a = "path_join (ROOT_DIR E) f"
  let ?t = "path_join THUMBNAIL_DIR (hash_path E f @ ''.jpg'')"
  let ?d = "[(''type'', JString ''video''), (''url'', JString (''/'' @ f)),
             (''thumb_url'', JString (''/thumbnail/'' @ hash_path E f @ ''.jpg''))]"
  have f: "f \<noteq> []" and a: "isfile (disk w) ?a"
    using assms(3) by (auto simp: preview_def Let_def split: if_splits)
  have "preview E (Some f) w = preview_video E f ?a w"
    using f a assms(1,2) by (rule preview_video_path)
  with assms(3) have "preview_video E f ?a w = (Inr d, w1)" by simp
  then have d: "d = ?d"
    by (cases "generate_video_thumbnail E ?a ?t w")
      (auto simp: preview_video_result split: if_splits)
  have "preview E (Some f) w1 = preview_video E f ?a w1"
    using f assms(4,1,2) by (rule preview_video_path)
  also have "\<dots> = (Inr ?d, w1)"
    using preview_video_result [OF generate_cached [OF assms(5)]] by simp
  finally show ?thesis using d by simp
qed

theorem preview_twice_witness:
  "guess_type (sample_env writes_thumbnail)
     (path_join (ROOT_DIR (sample_env writes_thumbnail)) ''videos/clip.mp4'') = Some ''video/mp4'' \<and>
   preview (sample_env writes_thumbnail) (Some ''videos/clip.mp4'') sample_world =
     (Inr [(''type'', JString ''video''), (''url'', JString ''/videos/clip.mp4''),
           (''thumb_url'', JString ''/thumbnail/631533dd92f8f54ea505b59d9920068e.jpg'')],
      \<lparr>disk = sample_disk(''/tmp/web_file_viewer/631533dd92f8f54ea505b59d9920068e.jpg'' \<mapsto> File),
       procs = [ffmpeg_cmd ''/srv/www/videos/clip.mp4''
                  ''/tmp/web_file_viewer/631533dd92f8f54ea505b59d9920068e.jpg'']\<rparr>) \<and>
   preview (sample_env writes_thumbnail) (Some ''videos/clip.mp4'')
     \<lparr>disk = sample_disk(''/tmp/web_file_viewer/631533dd92f8f54ea505b59d9920068e.jpg'' \<mapsto> File),
      procs = [ffmpeg_cmd ''/srv/www/videos/clip.mp4''
                 ''/tmp/web_file_viewer/631533dd92f8f54ea505b59d9920068e.jpg'']\<rparr> =
     (Inr [(''type'', JString ''video''), (''url'', JString ''/videos/clip.mp4''),
           (''thumb_url'', JString ''/thumbnail/631533dd92f8f54ea505b59d9920068e.jpg'')],
      \<lparr>disk = sample_disk(''/tmp/web_file_viewer/631533dd92f8f54ea505b59d9920068e.jpg'' \<mapsto> File),
       procs = [ffmpeg_cmd ''/srv/www/videos/clip.mp4''
                  ''/tmp/web_file_viewer/631533dd92f8f54ea505b59d9920068e.jpg'']\<rparr>)"
proof -
  let ?E = "sample_env writes_thumbnail"
  let ?d = "[(''type'', JString ''video''), (''url'', JString ''/videos/clip.mp4''),
           (''thumb_url'', JString ''/thumbnail/631533dd92f8f54ea505b59d9920068e.jpg'')]"
  let ?w1 = "\<lparr>disk = sample_disk(''/tmp/web_file_viewer/631533dd92f8f54ea505b59d9920068e.jpg'' \<mapsto> File),
       procs = [ffmpeg_cmd ''/srv/www/videos/clip.mp4''
                  ''/tmp/web_file_viewer/631533dd92f8f54ea505b59d9920068e.jpg'']\<rparr>"
  have m: "guess_type ?E (path_join (ROOT_DIR ?E) ''videos/clip.mp4'') = Some ''video/mp4''"
    by (simp add: sample_defs)
  have v: "prefix ''video/'' ''video/mp4''" by simp
  have p: "preview ?E (Some ''videos/clip.mp4'') sample_world = (Inr ?d, ?w1)"
    by (simp add: preview_def preview_video_def generate_video_thumbnail_def hash_path_def
        writes_thumbnail_def ffmpeg_cmd_def Let_def sample_defs)
  have a: "isfile (disk ?w1) (path_join (ROOT_DIR ?E) ''videos/clip.mp4'')"
    by (simp add: sample_defs)
  have t: "exists_path (disk ?w1) (path_join THUMBNAIL_DIR (hash_path ?E ''videos/clip.mp4'' @ ''.jpg''))"
    by (simp add: sample_defs hash_path_def)
  from preview_twice [OF m v p a t] m p show ?thesis by simp
qed

section \<open>Where the requested file lies\<close>

text \<open>
  Claim C3 says that every path accepted by the file-serving and preview handlers
  resolves to a location within the root directory, and that a path whose resolution
  escapes the root is refused. \<^verbatim>\<open>preview\<close> joins the root and the parameter and asks
  only whether the result is a regular file: an absolute parameter replaces the root, and
  the request for a video outside the root is answered, after the tool has been run on
  it. \<^verbatim>\<open>browse\<close> likewise joins the root and the path and lists the directory found
  there, here one reached by climbing out of the root.
\<close>

theorem preview_escapes_root_counterexample:
  "preview (sample_env writes_thumbnail) (Some ''/media/private/cam.mp4'') sample_world =
     (Inr [(''type'', JString ''video''), (''url'', JString ''//media/private/cam.mp4''),
           (''thumb_url'', JString ''/thumbnail/90b67f1b1c27390b2056be8b6c1f99c7.jpg'')],
      \<lparr>disk = sample_disk(''/tmp/web_file_viewer/90b67f1b1c27390b2056be8b6c1f99c7.jpg'' \<mapsto> File),
       procs = [ffmpeg_cmd ''/media/private/cam.mp4''
                  ''/tmp/web_file_viewer/90b67f1b1c27390b2056be8b6c1f99c7.jpg'']\<rparr>) \<and>
   path_join (ROOT_DIR (sample_env writes_thumbnail)) ''/media/private/cam.mp4''
     = ''/media/private/cam.mp4'' \<and>
   \<not> lies_within (ROOT_DIR (sample_env writes_thumbnail))
       (path_join (ROOT_DIR (sample_env writes_thumbnail)) ''/media/private/cam.mp4'') \<and>
   browse (sample_env writes_thumbnail) ''../../media/private'' sample_world =
     (Inr (Page [\<lparr>entry_name = ''cam.mp4'', entry_relpath = ''../../media/private/cam.mp4'',
                  entry_is_dir = False, entry_type = ''video''\<rparr>]
             ''../../media/private'' ''../../media''), sample_world) \<and>
   path_join (ROOT_DIR (sample_env writes_thumbnail)) ''../../media/private''
     = ''/srv/www/../../media/private'' \<and>
   \<not> lies_within (ROOT_DIR (sample_env writes_thumbnail))
       (path_join (ROOT_DIR (sample_env writes_thumbnail)) ''../../media/private'')"
proof -
  have "preview (sample_env writes_thumbnail) (Some ''/media/private/cam.mp4'') sample_world =
     (Inr [(''type'', JString ''video''), (''url'', JString ''//media/private/cam.mp4''),
           (''thumb_url'', JString ''/thumbnail/90b67f1b1c27390b2056be8b6c1f99c7.jpg'')],
      \<lparr>disk = sample_disk(''/tmp/web_file_viewer/90b67f1b1c27390b2056be8b6c1f99c7.jpg'' \<mapsto> File),
       procs = [ffmpeg_cmd ''/media/private/cam.mp4''
                  ''/tmp/web_file_viewer/90b67f1b1c27390b2056be8b6c1f99c7.jpg'']\<rparr>)"
    by (simp add: preview_def preview_video_def generate_video_thumbnail_def hash_path_def
        writes_thumbnail_def ffmpeg_cmd_def Let_def sample_defs)
  moreover have "browse (sample_env writes_thumbnail) ''../../media/private'' sample_world =
     (Inr (Page [\<lparr>entry_name = ''cam.mp4'', entry_relpath = ''../../media/private/cam.mp4'',
                  entry_is_dir = False, entry_type = ''video''\<rparr>]
             ''../../media/private'' ''../../media''), sample_world)"
    by (simp add: file_defs sample_defs sample_listdir_def)
  ultimately show ?thesis
    by (simp add: sample_defs path_defs)
qed

text \<open>
  Claim C3, amended. Every path accepted by \<^verbatim>\<open>serve_file\<close>, and by \<^verbatim>\<open>browse\<close>
  when it sends a file, resolves to an existing regular file within the root directory,
  and a path whose resolution escapes the root is refused by them with status 404 and
  never served (\<^verbatim>\<open>browse\<close>: unless a directory is there, which it lists).
  \<^verbatim>\<open>preview\<close> answers with status 404 exactly when the joined path is not an existing
  regular file, so every path it accepts resolves to one, and \<^verbatim>\<open>browse\<close> lists only
  an existing directory; for these two the resolved location lies within the root
  whenever the path is one that \<^verbatim>\<open>safe_join\<close> accepts (a relative path whose normal
  form does not start with \<^verbatim>\<open>..\<close>).
\<close>

theorem request_locations:
  "(serve_file E path w = (Inr r, w') \<longrightarrow>
      (\<exists>p. r = SentFile p \<and> isfile (disk w) p \<and> lies_within (ROOT_DIR E) p)) \<and>
   (browse E path w = (Inr (SentFile p), w') \<longrightarrow>
      isfile (disk w) p \<and> lies_within (ROOT_DIR E) p) \<and>
   (\<not> lies_within (ROOT_DIR E) (path_join (ROOT_DIR E) path) \<longrightarrow>
      serve_file E path w = (Inl (Abort 404 None), w) \<and>
      (\<not> isdir (disk w) (path_join (ROOT_DIR E) path) \<longrightarrow>
         browse E path w = (Inl (Abort 404 None), w))) \<and>
   (browse E path w = (Inr (Page es rel parent), w') \<longrightarrow>
      isdir (disk w) (path_join (ROOT_DIR E) path) \<and>
      (safe_join (ROOT_DIR E) path \<noteq> None \<longrightarrow>
         lies_within (ROOT_DIR E) (path_join (ROOT_DIR E) path))) \<and>
   (path \<noteq> [] \<longrightarrow>
      (fst (preview E (Some path) w) = Inl (Abort 404 None))
        = (\<not> isfile (disk w) (path_join (ROOT_DIR E) path))) \<and>
   (preview E (Some path) w = (Inr d, w') \<longrightarrow>
      isfile (disk w) (path_join (ROOT_DIR E) path) \<and>
      (safe_join (ROOT_DIR E) path \<noteq> None \<longrightarrow>
         lies_within (ROOT_DIR E) (path_join (ROOT_DIR E) path)))"
proof -
  have within: "lies_within (ROOT_DIR E) (path_join (ROOT_DIR E) path)"
    if "safe_join (ROOT_DIR E) path \<noteq> None"
    using that safe_join_join_within by blast
  have sent: "isfile (disk w) q \<and> lies_within (ROOT_DIR E) q"
    if "send_from_directory (ROOT_DIR E) path w = (Inr (SentFile q), w')" for q
    using send_from_directory_sends [OF that] safe_join_within by blast
  have 1: "\<exists>p. r = SentFile p \<and> isfile (disk w) p \<and> lies_within (ROOT_DIR E) p"
    if "serve_file E path w = (Inr r, w')"
  proof -
    from that obtain q where "r = SentFile q"
      using send_from_directory_sends unfolding serve_file_def by blast
    with that sent [of q] show ?thesis by (auto simp: serve_file_def)
  qed
  have 2: "isfile (disk w) p \<and> lies_within (ROOT_DIR E) p"
    if "browse E path w = (Inr (SentFile p), w')"
    using sent [OF browse_sends [OF that]] .
  have 3: "serve_file E path w = (Inl (Abort 404 None), w) \<and>
      (\<not> isdir (disk w) (path_join (ROOT_DIR E) path) \<longrightarrow>
         browse E path w = (Inl (Abort 404 None), w))"
    if "\<not> lies_within (ROOT_DIR E) (path_join (ROOT_DIR E) path)"
  proof -
    have "safe_join (ROOT_DIR E) path = None"
      using that within by blast
    then show ?thesis
      by (simp add: serve_file_def browse_def send_from_directory_refuses)
  qed
  have 4: "isdir (disk w) (path_join (ROOT_DIR E) path)"
    if "browse E path w = (Inr (Page es rel parent), w')"
    using that by (rule browse_lists)
  have 5: "(fst (preview E (Some path) w) = Inl (Abort 404 None))
        = (\<not> isfile (disk w) (path_join (ROOT_DIR E) path))" if "path \<noteq> []"
    using that by (rule preview_404_iff)
  have 6: "isfile (disk w) (path_join (ROOT_DIR E) path)"
    if "preview E (Some path) w = (Inr d, w')"
    using that by (rule preview_accepts_file)
  show ?thesis
    using 1 2 3 4 5 6 within by blast
qed

theorem request_locations_witness:
  "serve_file (sample_env writes_thumbnail) ''pics/../pics/a.png'' sample_world
     = (Inr (SentFile ''/srv/www/pics/a.png''), sample_world) \<and>
   browse (sample_env writes_thumbnail) ''pics/a.png'' sample_world
     = (Inr (SentFile ''/srv/www/pics/a.png''), sample_world) \<and>
   isfile (disk sample_world) ''/srv/www/pics/a.png'' \<and>
   lies_within ''/srv/www'' ''/srv/www/pics/a.png'' \<and>
   \<not> lies_within ''/srv/www'' (path_join ''/srv/www'' ''../../media/private/cam.mp4'') \<and>
   \<not> isdir (disk sample_world) (path_join ''/srv/www'' ''../../media/private/cam.mp4'') \<and>
   serve_file (sample_env writes_thumbnail) ''../../media/private/cam.mp4'' sample_world
     = (Inl (Abort 404 None), sample_world) \<and>
   browse (sample_env writes_thumbnail) ''../../media/private/cam.mp4'' sample_world
     = (Inl (Abort 404 None), sample_world) \<and>
   browse (sample_env writes_thumbnail) ''videos'' sample_world
     = (Inr (Page [\<lparr>entry_name = ''clip.mp4'', entry_relpath = ''videos/clip.mp4'',
                    entry_is_dir = False, entry_type = ''video''\<rparr>] ''videos'' []),
        sample_world) \<and>
   isdir (disk sample_world) ''/srv/www/videos'' \<and>
   safe_join ''/srv/www'' ''videos'' = Some ''/srv/www/videos'' \<and>
   lies_within ''/srv/www'' ''/srv/www/videos'' \<and>
   fst (preview (sample_env writes_thumbnail) (Some ''videos/gone.mp4'') sample_world)
     = Inl (Abort 404 None) \<and>
   \<not> isfile (disk sample_world) ''/srv/www/videos/gone.mp4'' \<and>
   preview (sample_env writes_thumbnail) (Some ''pics/a.png'') sample_world
     = (Inr [(''type'', JString ''image''), (''url'', JString ''/pics/a.png''),
             (''thumb_url'', JString ''/pics/a.png'')], sample_world) \<and>
   safe_join ''/srv/www'' ''pics/a.png'' = Some ''/srv/www/pics/a.png''"
proof -
  let ?E = "sample_env writes_thumbnail"
  have s: "serve_file ?E ''pics/../pics/a.png'' sample_world
     = (Inr (SentFile ''/srv/www/pics/a.png''), sample_world)"
    by (simp add: file_defs sample_defs)
  have b: "browse ?E ''pics/a.png'' sample_world
     = (Inr (SentFile ''/srv/www/pics/a.png''), sample_world)"
    by (simp add: file_defs sample_defs)
  have l: "browse ?E ''videos'' sample_world
     = (Inr (Page [\<lparr>entry_name = ''clip.mp4'', entry_relpath = ''videos/clip.mp4'',
                    entry_is_dir = False, entry_type = ''video''\<rparr>] ''videos'' []),
        sample_world)"
    by (simp add: file_defs sample_defs sample_listdir_def)
  have p: "preview ?E (Some ''pics/a.png'') sample_world
     = (Inr [(''type'', JString ''image''), (''url'', JString ''/pics/a.png''),
             (''thumb_url'', JString ''/pics/a.png'')], sample_world)"
    by (simp add: preview_def sample_defs)
  have out: "\<not> lies_within (ROOT_DIR ?E) (path_join (ROOT_DIR ?E) ''../../media/private/cam.mp4'')"
    by (simp add: sample_defs path_defs)
  have j1: "safe_join ''/srv/www'' ''videos'' = Some ''/srv/www/videos''"
    and j2: "safe_join ''/srv/www'' ''pics/a.png'' = Some ''/srv/www/pics/a.png''"
    by (simp_all add: file_defs sample_defs)
  have r: "ROOT_DIR ?E = ''/srv/www''" by (simp add: sample_env_def)
  show ?thesis
    using request_locations [where E = "?E" and w = sample_world and path = "''pics/../pics/a.png''",
        THEN conjunct1, rule_format, OF s]
      request_locations [where E = "?E" and w = sample_world and path = "''pics/a.png''",
        THEN conjunct2, THEN conjunct1, rule_format, OF b]
      request_locations [where E = "?E" and w = sample_world
          and path = "''../../media/private/cam.mp4''",
        THEN conjunct2, THEN conjunct2, THEN conjunct1, rule_format, OF out]
      request_locations [where E = "?E" and w = sample_world and path = "''videos''",
        THEN conjunct2, THEN conjunct2, THEN conjunct2, THEN conjunct1, rule_format, OF l]
      request_locations [where E = "?E" and w = sample_world and path = "''videos/gone.mp4''",
        THEN conjunct2, THEN conjunct2, THEN conjunct2, THEN conjunct2, THEN conjunct1]
      request_locations [where E = "?E" and w = sample_world and path = "''pics/a.png''",
        THEN conjunct2, THEN conjunct2, THEN conjunct2, THEN conjunct2, THEN conjunct2,
        rule_format, OF p]
      s b l p out j1 j2
    by (simp add: r) (simp add: sample_defs)
qed

section \<open>Two requests at once\<close>

text \<open>
  Claim C5 says that two concurrent first-time resolve calls for the same video start the
  external process exactly once. Nothing serializes the calls: when both have tested the
  destination before either has run the tool, each runs it. Below, both calls are for
  \<^verbatim>\<open>videos/clip.mp4\<close>, no thumbnail exists at the start, and the schedule is test,
  test, run, run: the tool is started twice.
\<close>

theorem concurrent_calls_counterexample:
  "run_calls (sample_env writes_thumbnail)
     (''/srv/www/videos/clip.mp4'', ''/tmp/web_file_viewer/631533dd92f8f54ea505b59d9920068e.jpg'')
     (''/srv/www/videos/clip.mp4'', ''/tmp/web_file_viewer/631533dd92f8f54ea505b59d9920068e.jpg'')
     [First, Second, First, Second] (Ready, Ready, sample_world) =
     (Finished True, Finished True,
      \<lparr>disk = sample_disk(''/tmp/web_file_viewer/631533dd92f8f54ea505b59d9920068e.jpg'' \<mapsto> File),
       procs = [ffmpeg_cmd ''/srv/www/videos/clip.mp4''
                  ''/tmp/web_file_viewer/631533dd92f8f54ea505b59d9920068e.jpg'',
                ffmpeg_cmd ''/srv/www/videos/clip.mp4''
                  ''/tmp/web_file_viewer/631533dd92f8f54ea505b59d9920068e.jpg'']\<rparr>) \<and>
   path_join (ROOT_DIR (sample_env writes_thumbnail)) ''videos/clip.mp4'' = ''/srv/www/videos/clip.mp4'' \<and>
   path_join THUMBNAIL_DIR (hash_path (sample_env writes_thumbnail) ''videos/clip.mp4'' @ ''.jpg'')
     = ''/tmp/web_file_viewer/631533dd92f8f54ea505b59d9920068e.jpg'' \<and>
   \<not> exists_path (disk sample_world) ''/tmp/web_file_viewer/631533dd92f8f54ea505b59d9920068e.jpg''"
  by (simp add: run_calls_def generate_check_def generate_invoke_def writes_thumbnail_def
      ffmpeg_cmd_def hash_path_def Let_def sample_defs)

text \<open>
  Claim C5, amended. (The two steps of a call, taken in a row, are
  \<^verbatim>\<open>generate_video_thumbnail\<close>.) For two concurrent first-time resolve calls for the
  same video path generation is not serialized: each call starts the external process at most once, so
  that when both have finished it was started once or twice; it is started twice whenever
  both calls test the destination before either runs the process, each call then
  reporting success exactly when its own run ends with return code 0; it is started once
  when the first call is done, and has left a file at the destination, before the second
  tests it. Calls for distinct keys are not serialized against each other either.
\<close>

theorem concurrent_calls:
  assumes "\<not> exists_path (disk w) t"
  shows "gen_step E (v, t) (gen_step E (v, t) (Ready, w)) =
           (Finished (fst (generate_video_thumbnail E v t w)),
            snd (generate_video_thumbnail E v t w)) \<and>
         (run_calls E (v, t) (v, t) schedule (Ready, Ready, w) = (Finished a, Finished b, w') \<longrightarrow>
            procs w' = procs w @ [ffmpeg_cmd v t] \<or>
            procs w' = procs w @ [ffmpeg_cmd v t, ffmpeg_cmd v t]) \<and>
         run_calls E (v, t) (v, t) [First, Second, First, Second] (Ready, Ready, w) =
           (Finished (\<not> process_failed (run_process E (ffmpeg_cmd v t) (disk w))),
            Finished (\<not> process_failed (run_process E (ffmpeg_cmd v t)
               (disk_after (disk w) (run_process E (ffmpeg_cmd v t) (disk w))))),
            w\<lparr>procs := procs w @ [ffmpeg_cmd v t, ffmpeg_cmd v t],
              disk := disk_after (disk_after (disk w) (run_process E (ffmpeg_cmd v t) (disk w)))
                        (run_process E (ffmpeg_cmd v t)
                           (disk_after (disk w) (run_process E (ffmpeg_cmd v t) (disk w))))\<rparr>) \<and>
         (exists_path (disk_after (disk w) (run_process E (ffmpeg_cmd v t) (disk w))) t \<longrightarrow>
            run_calls E (v, t) (v, t) [First, First, Second, Second] (Ready, Ready, w) =
              (Finished (\<not> process_failed (run_process E (ffmpeg_cmd v t) (disk w))),
               Finished True,
               w\<lparr>procs := procs w @ [ffmpeg_cmd v t],
                 disk := disk_after (disk w) (run_process E (ffmpeg_cmd v t) (disk w))\<rparr>)) \<and>
         (\<not> exists_path (disk w) t2 \<longrightarrow>
            procs (snd (snd (run_calls E (v, t) (v2, t2) [First, Second, First, Second]
                               (Ready, Ready, w))))
              = procs w @ [ffmpeg_cmd v t, ffmpeg_cmd v2 t2])"
  using invocations_bounds [OF assms] interleaved [OF assms assms] sequential [OF assms]
    interleaved [OF assms, of t2 E v v2] gen_step_twice [of E v t w]
  by simp

theorem concurrent_calls_witness:
  "\<not> exists_path (disk sample_world) ''/tmp/web_file_viewer/631533dd92f8f54ea505b59d9920068e.jpg'' \<and>
   run_calls (sample_env writes_thumbnail)
     (''/srv/www/videos/clip.mp4'', ''/tmp/web_file_viewer/631533dd92f8f54ea505b59d9920068e.jpg'')
     (''/srv/www/videos/clip.mp4'', ''/tmp/web_file_viewer/631533dd92f8f54ea505b59d9920068e.jpg'')
     [First, Second, Second, First] (Ready, Ready, sample_world) =
     (Finished True, Finished True,
      \<lparr>disk = sample_disk(''/tmp/web_file_viewer/631533dd92f8f54ea505b59d9920068e.jpg'' \<mapsto> File),
       procs = [ffmpeg_cmd ''/srv/www/videos/clip.mp4''
                  ''/tmp/web_file_viewer/631533dd92f8f54ea505b59d9920068e.jpg'',
                ffmpeg_cmd ''/srv/www/videos/clip.mp4''
                  ''/tmp/web_file_viewer/631533dd92f8f54ea505b59d9920068e.jpg'']\<rparr>) \<and>
   run_calls (sample_env writes_thumbnail)
     (''/srv/www/videos/clip.mp4'', ''/tmp/web_file_viewer/631533dd92f8f54ea505b59d9920068e.jpg'')
     (''/srv/www/videos/clip.mp4'', ''/tmp/web_file_viewer/631533dd92f8f54ea505b59d9920068e.jpg'')
     [First, First, Second, Second] (Ready, Ready, sample_world) =
     (Finished True, Finished True,
      \<lparr>disk = sample_disk(''/tmp/web_file_viewer/631533dd92f8f54ea505b59d9920068e.jpg'' \<mapsto> File),
       procs = [ffmpeg_cmd ''/srv/www/videos/clip.mp4''
                  ''/tmp/web_file_viewer/631533dd92f8f54ea505b59d9920068e.jpg'']\<rparr>) \<and>
   \<not> exists_path (disk sample_world) ''/tmp/web_file_viewer/90b67f1b1c27390b2056be8b6c1f99c7.jpg'' \<and>
   procs (snd (snd (run_calls (sample_env writes_thumbnail)
     (''/srv/www/videos/clip.mp4'', ''/tmp/web_file_viewer/631533dd92f8f54ea505b59d9920068e.jpg'')
     (''/media/private/cam.mp4'', ''/tmp/web_file_viewer/90b67f1b1c27390b2056be8b6c1f99c7.jpg'')
     [First, Second, First, Second] (Ready, Ready, sample_world)))) =
     [ffmpeg_cmd ''/srv/www/videos/clip.mp4''
        ''/tmp/web_file_viewer/631533dd92f8f54ea505b59d9920068e.jpg'',
      ffmpeg_cmd ''/media/private/cam.mp4''
        ''/tmp/web_file_viewer/90b67f1b1c27390b2056be8b6c1f99c7.jpg'']"
proof -
  let ?E = "sample_env writes_thumbnail"
  let ?v = "''/srv/www/videos/clip.mp4''"
  let ?t = "''/tmp/web_file_viewer/631533dd92f8f54ea505b59d9920068e.jpg''"
  let ?w2 = "\<lparr>disk = sample_disk(?t \<mapsto> File), procs = [ffmpeg_cmd ?v ?t, ffmpeg_cmd ?v ?t]\<rparr>"
  have n: "\<not> exists_path (disk sample_world) ?t"
    by (simp add: sample_defs)
  have n2: "\<not> exists_path (disk sample_world)
      ''/tmp/web_file_viewer/90b67f1b1c27390b2056be8b6c1f99c7.jpg''"
    by (simp add: sample_defs)
  have r: "run_calls ?E (?v, ?t) (?v, ?t) [First, Second, Second, First] (Ready, Ready, sample_world)
      = (Finished True, Finished True, ?w2)"
    by (simp add: run_calls_def generate_check_def generate_invoke_def writes_thumbnail_def
        ffmpeg_cmd_def Let_def sample_defs)
  have e: "exists_path (disk_after (disk sample_world)
      (run_process ?E (ffmpeg_cmd ?v ?t) (disk sample_world))) ?t"
    by (simp add: sample_defs writes_thumbnail_def ffmpeg_cmd_def)
  note c = concurrent_calls [OF n, where E = "?E" and v = ?v]
  show ?thesis
    using c [where schedule = "[First, Second, Second, First]" and a = True and b = True
          and w' = ?w2, THEN conjunct2, THEN conjunct1, rule_format, OF r]
      c [THEN conjunct2, THEN conjunct2, THEN conjunct2, THEN conjunct1, rule_format, OF e]
      c [where ?t2.0 = "''/tmp/web_file_viewer/90b67f1b1c27390b2056be8b6c1f99c7.jpg''"
          and ?v2.0 = "''/media/private/cam.mp4''",
        THEN conjunct2, THEN conjunct2, THEN conjunct2, THEN conjunct2, rule_format, OF n2]
      n n2 r
    by (simp add: sample_defs writes_thumbnail_def ffmpeg_cmd_def)
qed

end
